theory Spec2Isabelle
  imports Main "HOL-Library.Signed_Division" "HOL-Library.AList" "HOL-Library.Word"
begin

section \<open>Agent Royale: off-chain gaming engine and settlement contract\<close>

text \<open>
  A shallow embedding of the channel engine (server/gaming-engine.js), the game plug-ins
  (server/games/base-game.js, slots.js, coinflip.js, lotto.js), the commit-reveal
  primitive (server/commit-reveal.js) and the settlement contract
  (contracts/ChannelManager.sol).

  Conventions of the embedding.
  \<^item> A JavaScript BigInt is an \<open>int\<close>; BigInt division truncates towards zero and is
    written \<open>sdiv\<close>. A JavaScript number used as a counter (nonce, draw id) is a \<open>nat\<close>.
  \<^item> Amounts cross the API as ether strings and are converted by ethers' parseEther and
    formatEther; the embedding starts behind that boundary, with amounts in wei.
  \<^item> A thrown Error is a value of type \<open>error\<close>. The plug-ins mutate the channel object
    they are handed and may throw afterwards, so every operation returns its outcome
    (\<open>Inl\<close> the error) together with the state it leaves behind.
  \<^item> The collaborators of the engine are parameters: the signer (\<open>None\<close> when the
    signature request throws), SHA-256 (as a function from the hashed text to the digest
    bytes), the clock and the random seed drawn by \<open>CommitReveal.commit\<close>.
  \<^item> The cumulative display statistics of a plug-in (\<open>_stats\<close>, \<open>_lottoStats\<close>) are
    not part of the channel state and are left out.
\<close>

subsection \<open>Shared types\<close>

type_synonym address = string
type_synonym signature = string
type_synonym signer = "address \<Rightarrow> int \<Rightarrow> int \<Rightarrow> nat \<Rightarrow> signature option"
type_synonym hasher = "string \<Rightarrow> 8 word list"

datatype error =
    BetMustBePositive
  | InsufficientBalance
  | MaxBetBankrollLimit
  | ChoiceInvalid
  | AlreadyPending
  | NoPending
  | CommitmentExpired
  | InsufficientBalanceAtReveal
  | BufferOutOfRange
  | PickOutOfRange
  | MaxTicketsPerDraw
  | CasinoCantCover
  | TicketLimitReached
  | DrawNotFound
  | DrawAlreadyExecuted
  | SignerFailed
  | ChannelNotFound
  | ChannelAlreadyExists
  | InvariantViolation

text \<open>One entry of \<open>channel.games\<close>, pushed by the plug-in that resolved the round.\<close>

datatype game_record =
    SlotsRound nat int "nat list" int int int
  | CoinflipRound nat int string string bool int int
  | LottoPurchase nat nat int int int int

record channel =
  agent :: address
  agentDeposit :: int
  casinoDeposit :: int
  agentBalance :: int
  casinoBalance :: int
  nonce :: nat
  games :: "game_record list"
  createdAt :: int

text \<open>The value stored in \<open>pendingCommits\<close> under the key \<open>agent:game\<close>.\<close>

record pending_commit =
  seed :: string
  betWei :: int
  choice :: "string option"
  game :: string
  timestamp :: int

type_synonym pending_commits = "string \<rightharpoonup> pending_commit"

subsection \<open>BaseGame\<close>

datatype game_id = Slots | Coinflip | Lotto

fun name :: "game_id \<Rightarrow> string" where
  "name Slots = ''slots''"
| "name Coinflip = ''coinflip''"
| "name Lotto = ''lotto''"

fun maxMultiplier :: "game_id \<Rightarrow> int" where
  "maxMultiplier Slots = 290"
| "maxMultiplier Coinflip = 2"
| "maxMultiplier Lotto = 85"

text \<open>
  \<open>validateBet(channel, betWei, safetyMargin = 2)\<close>: \<open>None\<close> when the bet passes, the
  thrown error otherwise. The checks are in the order of the source.
\<close>

definition validateBet :: "game_id \<Rightarrow> channel \<Rightarrow> int \<Rightarrow> int \<Rightarrow> error option" where
  "validateBet g ch bet safetyMargin =
     (if bet \<le> 0 then Some BetMustBePositive
      else if agentBalance ch < bet then Some InsufficientBalance
      else (let maxPayout = bet * maxMultiplier g in
            if maxPayout * safetyMargin > casinoBalance ch then Some MaxBetBankrollLimit
            else None))"

text \<open>Conservation (I1) and non-negativity (I2) of one channel.\<close>

definition conserved :: "channel \<Rightarrow> bool" where
  "conserved ch = (agentBalance ch + casinoBalance ch = agentDeposit ch + casinoDeposit ch)"

definition nonneg :: "channel \<Rightarrow> bool" where
  "nonneg ch = (0 \<le> agentBalance ch \<and> 0 \<le> casinoBalance ch)"

definition mk_channel :: "address \<Rightarrow> int \<Rightarrow> int \<Rightarrow> int \<Rightarrow> int \<Rightarrow> nat \<Rightarrow> channel" where
  "mk_channel a ad cd ab cb n =
     \<lparr>agent = a, agentDeposit = ad, casinoDeposit = cd, agentBalance = ab,
      casinoBalance = cb, nonce = n, games = [], createdAt = 0\<rparr>"

subsection \<open>CommitReveal\<close>

text \<open>\<open>Number.prototype.toString()\<close> and \<open>BigInt.prototype.toString()\<close> in base 10.\<close>

fun decimal :: "nat \<Rightarrow> string" where
  "decimal n = (if n < 10 then [char_of (48 + n)]
                else decimal (n div 10) @ [char_of (48 + n mod 10)])"

declare decimal.simps [simp del]

definition decimal_int :: "int \<Rightarrow> string" where
  "decimal_int i = (if i < 0 then ''-'' @ decimal (nat (- i)) else decimal (nat i))"

text \<open>
  \<open>commit()\<close>: the argument is the hex text of the 32 random bytes; the commitment is its
  digest. \<open>computeResult\<close> returns the digest of \<open>casinoSeed:agentSeed:nonce\<close>; the
  plug-ins read it back from its hex form with \<open>Buffer.from(resultHash, 'hex')\<close>, which
  gives the digest bytes again.
\<close>

definition commit :: "hasher \<Rightarrow> string \<Rightarrow> string \<times> 8 word list" where
  "commit H rnd = (rnd, H rnd)"

definition computeResult :: "hasher \<Rightarrow> string \<Rightarrow> string \<Rightarrow> nat \<Rightarrow> 8 word list" where
  "computeResult H casinoSeed agentSeed n =
     H (casinoSeed @ '':'' @ agentSeed @ '':'' @ decimal n)"

definition verify :: "hasher \<Rightarrow> 8 word list \<Rightarrow> string \<Rightarrow> bool" where
  "verify H commitment casinoSeed = (H casinoSeed = commitment)"

text \<open>\<open>Buffer.readUInt32BE(offset)\<close>; Node throws a RangeError outside the buffer.\<close>

definition readUInt32BE :: "8 word list \<Rightarrow> nat \<Rightarrow> nat option" where
  "readUInt32BE buf off =
     (if off + 4 \<le> length buf
      then Some (((unat (buf ! off) * 256 + unat (buf ! (off + 1))) * 256
                  + unat (buf ! (off + 2))) * 256 + unat (buf ! (off + 3)))
      else None)"

definition COMMIT_TIMEOUT :: int where
  "COMMIT_TIMEOUT = 5 * 60 * 1000"

text \<open>The key \<open>`${channel.agent}:${game}`\<close> of the pending-commit store.\<close>

definition commitKey :: "address \<Rightarrow> game_id \<Rightarrow> string" where
  "commitKey a g = a @ '':'' @ name g"

subsection \<open>Slots\<close>

definition SYMBOLS :: "string list" where
  "SYMBOLS = [''cherry'', ''lemon'', ''orange'', ''diamond'', ''seven'']"

definition WEIGHTS :: "nat list" where
  "WEIGHTS = [30, 25, 20, 15, 10]"

definition PAYOUTS :: "int list" where
  "PAYOUTS = [5, 10, 25, 50, 290]"

text \<open>The loop of \<open>_getSymbol\<close> over the remaining weights; \<open>0\<close> when it falls through.\<close>

fun getSymbol_loop :: "nat \<Rightarrow> nat \<Rightarrow> nat \<Rightarrow> nat list \<Rightarrow> nat" where
  "getSymbol_loop rng cumulative i [] = 0"
| "getSymbol_loop rng cumulative i (w # ws) =
     (if rng < cumulative + w then i
      else getSymbol_loop rng (cumulative + w) (i + 1) ws)"

definition getSymbol :: "nat \<Rightarrow> nat" where
  "getSymbol rng = getSymbol_loop rng 0 0 WEIGHTS"

record slots_result =
  sr_reels :: "string list"
  sr_reelIndices :: "nat list"
  sr_multiplier :: int
  sr_payout :: int
  sr_agentBalance :: int
  sr_casinoBalance :: int
  sr_nonce :: nat
  sr_signature :: signature
  sr_proof :: "string \<times> string \<times> 8 word list"

definition slots_commit ::
  "hasher \<Rightarrow> string \<Rightarrow> int \<Rightarrow> channel \<Rightarrow> int \<Rightarrow> pending_commits
     \<Rightarrow> (error + 8 word list \<times> int) \<times> pending_commits" where
  "slots_commit H rnd now ch bet pc =
     (case validateBet Slots ch bet 2 of
        Some e \<Rightarrow> (Inl e, pc)
      | None \<Rightarrow>
          if pc (commitKey (agent ch) Slots) \<noteq> None then (Inl AlreadyPending, pc)
          else (case commit H rnd of (sd, commitment) \<Rightarrow>
            (Inr (commitment, bet),
             pc(commitKey (agent ch) Slots \<mapsto>
                  \<lparr>seed = sd, betWei = bet, choice = None, game = ''slots'',
                   timestamp = now\<rparr>))))"

text \<open>
  The multiplier and the payout before the cap, from the three reel indices
  (\<open>PAYOUTS[reels[0]]\<close> when all three are equal).
\<close>

definition slots_multiplier :: "nat list \<Rightarrow> int" where
  "slots_multiplier reels =
     (if reels ! 0 = reels ! 1 \<and> reels ! 1 = reels ! 2 then PAYOUTS ! (reels ! 0) else 0)"

definition cap :: "int \<Rightarrow> int \<Rightarrow> int" where
  "cap payout limit = (if payout > limit then limit else payout)"

definition slots_reveal ::
  "hasher \<Rightarrow> signer \<Rightarrow> int \<Rightarrow> channel \<Rightarrow> string \<Rightarrow> pending_commits
     \<Rightarrow> (error + slots_result) \<times> channel \<times> pending_commits" where
  "slots_reveal H sg now ch agentSeed pc =
     (case pc (commitKey (agent ch) Slots) of
        None \<Rightarrow> (Inl NoPending, ch, pc)
      | Some pending \<Rightarrow>
          if now - timestamp pending > COMMIT_TIMEOUT
          then (Inl CommitmentExpired, ch, pc(commitKey (agent ch) Slots := None))
          else if agentBalance ch < betWei pending
          then (Inl InsufficientBalanceAtReveal, ch, pc(commitKey (agent ch) Slots := None))
          else
            (let hashBuf = computeResult H (seed pending) agentSeed (nonce ch) in
             case (readUInt32BE hashBuf 0, readUInt32BE hashBuf 4, readUInt32BE hashBuf 8) of
               (Some u0, Some u1, Some u2) \<Rightarrow>
                 (let reels = [getSymbol (u0 mod 100), getSymbol (u1 mod 100),
                               getSymbol (u2 mod 100)];
                      multiplier = slots_multiplier reels;
                      payoutWei = cap (betWei pending * multiplier) (casinoBalance ch);
                      ch' = ch\<lparr>agentBalance := agentBalance ch - betWei pending + payoutWei,
                               casinoBalance := casinoBalance ch + betWei pending - payoutWei,
                               nonce := nonce ch + 1,
                               games := games ch @
                                 [SlotsRound (nonce ch + 1) (betWei pending) reels multiplier
                                    payoutWei now]\<rparr>
                  in case sg (agent ch') (agentBalance ch') (casinoBalance ch') (nonce ch') of
                       None \<Rightarrow> (Inl SignerFailed, ch', pc)
                     | Some sig \<Rightarrow>
                         (Inr \<lparr>sr_reels = map (\<lambda>i. SYMBOLS ! i) reels,
                               sr_reelIndices = reels,
                               sr_multiplier = multiplier,
                               sr_payout = payoutWei,
                               sr_agentBalance = agentBalance ch',
                               sr_casinoBalance = casinoBalance ch',
                               sr_nonce = nonce ch',
                               sr_signature = sig,
                               sr_proof = (seed pending, agentSeed, hashBuf)\<rparr>,
                          ch', pc(commitKey (agent ch) Slots := None)))
             | _ \<Rightarrow> (Inl BufferOutOfRange, ch, pc)))"

subsection \<open>Coinflip\<close>

record coinflip_result =
  cr_choice :: "string option"
  cr_result :: string
  cr_won :: bool
  cr_payout :: int
  cr_agentBalance :: int
  cr_casinoBalance :: int
  cr_nonce :: nat
  cr_signature :: signature
  cr_proof :: "string \<times> string \<times> 8 word list"

definition coinflip_commit ::
  "hasher \<Rightarrow> string \<Rightarrow> int \<Rightarrow> channel \<Rightarrow> string \<Rightarrow> int \<Rightarrow> pending_commits
     \<Rightarrow> (error + 8 word list \<times> int \<times> string) \<times> pending_commits" where
  "coinflip_commit H rnd now ch ch_choice bet pc =
     (if ch_choice \<notin> set [''heads'', ''tails''] then (Inl ChoiceInvalid, pc)
      else case validateBet Coinflip ch bet 2 of
        Some e \<Rightarrow> (Inl e, pc)
      | None \<Rightarrow>
          if pc (commitKey (agent ch) Coinflip) \<noteq> None then (Inl AlreadyPending, pc)
          else (case commit H rnd of (sd, commitment) \<Rightarrow>
            (Inr (commitment, bet, ch_choice),
             pc(commitKey (agent ch) Coinflip \<mapsto>
                  \<lparr>seed = sd, betWei = bet, choice = Some ch_choice, game = ''coinflip'',
                   timestamp = now\<rparr>))))"

text \<open>
  The payout of a round: \<open>betWei * 19n / 10n\<close> on a win, capped at
  \<open>casinoBalance + betWei\<close>; \<open>0n\<close> on a loss.
\<close>

definition coinflip_payout :: "bool \<Rightarrow> int \<Rightarrow> int \<Rightarrow> int" where
  "coinflip_payout won bet casinoBal =
     (if won then cap (bet * 19 sdiv 10) (casinoBal + bet) else 0)"

definition coinflip_reveal ::
  "hasher \<Rightarrow> signer \<Rightarrow> int \<Rightarrow> channel \<Rightarrow> string \<Rightarrow> pending_commits
     \<Rightarrow> (error + coinflip_result) \<times> channel \<times> pending_commits" where
  "coinflip_reveal H sg now ch agentSeed pc =
     (case pc (commitKey (agent ch) Coinflip) of
        None \<Rightarrow> (Inl NoPending, ch, pc)
      | Some pending \<Rightarrow>
          if now - timestamp pending > COMMIT_TIMEOUT
          then (Inl CommitmentExpired, ch, pc(commitKey (agent ch) Coinflip := None))
          else if agentBalance ch < betWei pending
          then (Inl InsufficientBalanceAtReveal, ch, pc(commitKey (agent ch) Coinflip := None))
          else
            (let hashBuf = computeResult H (seed pending) agentSeed (nonce ch) in
             case readUInt32BE hashBuf 0 of
               None \<Rightarrow> (Inl BufferOutOfRange, ch, pc)
             | Some u \<Rightarrow>
                 (let result = (if u mod 2 = 0 then ''heads'' else ''tails'');
                      won = (Some result = choice pending);
                      payoutWei = coinflip_payout won (betWei pending) (casinoBalance ch);
                      ch' = ch\<lparr>agentBalance := agentBalance ch - betWei pending + payoutWei,
                               casinoBalance := casinoBalance ch + betWei pending - payoutWei,
                               nonce := nonce ch + 1,
                               games := games ch @
                                 [CoinflipRound (nonce ch + 1) (betWei pending)
                                    (case choice pending of None \<Rightarrow> [] | Some c \<Rightarrow> c)
                                    result won payoutWei now]\<rparr>
                  in case sg (agent ch') (agentBalance ch') (casinoBalance ch') (nonce ch') of
                       None \<Rightarrow> (Inl SignerFailed, ch', pc)
                     | Some sig \<Rightarrow>
                         (Inr \<lparr>cr_choice = choice pending,
                               cr_result = result,
                               cr_won = won,
                               cr_payout = payoutWei,
                               cr_agentBalance = agentBalance ch',
                               cr_casinoBalance = casinoBalance ch',
                               cr_nonce = nonce ch',
                               cr_signature = sig,
                               cr_proof = (seed pending, agentSeed, hashBuf)\<rparr>,
                          ch', pc(commitKey (agent ch) Coinflip := None)))))"

subsection \<open>Lotto\<close>

definition RANGE :: nat where
  "RANGE = 100"

definition PAYOUT_MULTIPLIER :: int where
  "PAYOUT_MULTIPLIER = 85"

text \<open>\<open>toWei('0.001')\<close>: a thousandth of an ether.\<close>

definition TICKET_PRICE :: int where
  "TICKET_PRICE = 1000000000000000"

definition DRAW_INTERVAL :: int where
  "DRAW_INTERVAL = 6 * 60 * 60 * 1000"

definition MAX_TICKETS_PER_DRAW :: int where
  "MAX_TICKETS_PER_DRAW = 10"

text \<open>
  A draw. \<open>tickets\<close> is a JavaScript Map from the agent to the numbers picked, kept as an
  association list in insertion order; \<open>Map.set\<close> is \<open>AList.update\<close>.
\<close>

record lotto_draw =
  drawId :: nat
  casinoSeed :: string
  commitment :: "8 word list"
  drawTime :: int
  tickets :: "(address \<times> int list) list"
  totalPool :: int
  winningNumber :: "nat option"
  drawn :: bool
  drawnAt :: "int option"

record lotto_state =
  draws :: "(nat \<times> lotto_draw) list"
  currentDrawId :: nat
  unclaimedWinnings :: "address \<rightharpoonup> int"

text \<open>\<open>this.unclaimedWinnings.get(agent) || 0n\<close>.\<close>

definition unclaimed_of :: "lotto_state \<Rightarrow> address \<Rightarrow> int" where
  "unclaimed_of L a = (case unclaimedWinnings L a of None \<Rightarrow> 0 | Some v \<Rightarrow> v)"

definition startNewDraw :: "hasher \<Rightarrow> string \<Rightarrow> int \<Rightarrow> lotto_state \<Rightarrow> lotto_state" where
  "startNewDraw H rnd now L =
     (case commit H rnd of (sd, cm) \<Rightarrow>
        L\<lparr>currentDrawId := currentDrawId L + 1,
          draws := AList.update (currentDrawId L + 1)
                     \<lparr>drawId = currentDrawId L + 1, casinoSeed = sd, commitment = cm,
                      drawTime = now + DRAW_INTERVAL, tickets = [], totalPool = 0,
                      winningNumber = None, drawn = False, drawnAt = None\<rparr>
                     (draws L)\<rparr>)"

text \<open>The constructor of \<open>LottoGame\<close>: empty maps, draw counter 0, then the first draw.\<close>

definition lotto_init :: "hasher \<Rightarrow> string \<Rightarrow> int \<Rightarrow> lotto_state" where
  "lotto_init H rnd now =
     startNewDraw H rnd now \<lparr>draws = [], currentDrawId = 0, unclaimedWinnings = Map.empty\<rparr>"

record buy_result =
  br_drawId :: nat
  br_pickedNumber :: int
  br_ticketCount :: int
  br_cost :: int
  br_maxPossiblePayout :: int
  br_drawTime :: int
  br_agentBalance :: int
  br_casinoBalance :: int
  br_nonce :: nat
  br_signature :: signature

text \<open>
  \<open>_buy\<close>. A missing current draw is the TypeError of reading \<open>draw.tickets\<close> of
  \<open>undefined\<close>. The empty ticket list is stored for a new agent before the per-agent limit
  is checked, and the record of the purchase is pushed only after the signature.
\<close>

definition lotto_buy ::
  "signer \<Rightarrow> int \<Rightarrow> channel \<Rightarrow> int \<Rightarrow> int \<Rightarrow> lotto_state
     \<Rightarrow> (error + buy_result) \<times> channel \<times> lotto_state" where
  "lotto_buy sg now ch pickedNumber ticketCount L =
     (if pickedNumber < 1 \<or> pickedNumber > int RANGE then (Inl PickOutOfRange, ch, L)
      else if ticketCount < 1 \<or> ticketCount > MAX_TICKETS_PER_DRAW
      then (Inl MaxTicketsPerDraw, ch, L)
      else if agentBalance ch < TICKET_PRICE * ticketCount then (Inl InsufficientBalance, ch, L)
      else if TICKET_PRICE * PAYOUT_MULTIPLIER * ticketCount > casinoBalance ch
      then (Inl CasinoCantCover, ch, L)
      else case map_of (draws L) (currentDrawId L) of
        None \<Rightarrow> (Inl DrawNotFound, ch, L)
      | Some draw \<Rightarrow>
          (let costWei = TICKET_PRICE * ticketCount;
               tickets1 = (if map_of (tickets draw) (agent ch) = None
                           then AList.update (agent ch) [] (tickets draw) else tickets draw);
               agentTickets = (case map_of tickets1 (agent ch) of None \<Rightarrow> [] | Some ts \<Rightarrow> ts)
           in if int (length agentTickets) + ticketCount > MAX_TICKETS_PER_DRAW
              then (Inl TicketLimitReached, ch,
                    L\<lparr>draws := AList.update (currentDrawId L) (draw\<lparr>tickets := tickets1\<rparr>)
                                  (draws L)\<rparr>)
              else
                (let ch' = ch\<lparr>agentBalance := agentBalance ch - costWei,
                              casinoBalance := casinoBalance ch + costWei,
                              nonce := nonce ch + 1\<rparr>;
                     draw' = draw\<lparr>tickets := AList.update (agent ch)
                                     (agentTickets @ replicate (nat ticketCount) pickedNumber)
                                     tickets1,
                                  totalPool := totalPool draw + costWei\<rparr>;
                     L' = L\<lparr>draws := AList.update (currentDrawId L) draw' (draws L)\<rparr>
                 in case sg (agent ch') (agentBalance ch') (casinoBalance ch') (nonce ch') of
                      None \<Rightarrow> (Inl SignerFailed, ch', L')
                    | Some sig \<Rightarrow>
                        (Inr \<lparr>br_drawId = currentDrawId L,
                              br_pickedNumber = pickedNumber,
                              br_ticketCount = ticketCount,
                              br_cost = costWei,
                              br_maxPossiblePayout =
                                TICKET_PRICE * PAYOUT_MULTIPLIER * ticketCount,
                              br_drawTime = drawTime draw,
                              br_agentBalance = agentBalance ch',
                              br_casinoBalance = casinoBalance ch',
                              br_nonce = nonce ch',
                              br_signature = sig\<rparr>,
                         ch'\<lparr>games := games ch' @
                                [LottoPurchase (nonce ch') (currentDrawId L) pickedNumber
                                   ticketCount costWei now]\<rparr>,
                         L'))))"

text \<open>
  The loop of \<open>executeDraw\<close> over \<open>draw.tickets\<close>: the winners in iteration order, each
  with the number of matching tickets and the payout, and the unclaimed winnings after
  the credits.
\<close>

fun credit_winners ::
  "nat \<Rightarrow> (address \<times> int list) list \<Rightarrow> (address \<rightharpoonup> int)
     \<Rightarrow> (address \<times> nat \<times> int) list \<times> (address \<rightharpoonup> int)" where
  "credit_winners w [] U = ([], U)"
| "credit_winners w ((a, ts) # rest) U =
     (let matchCount = length (filter (\<lambda>t. t = int w) ts) in
      if matchCount > 0 then
        (let payoutWei = TICKET_PRICE * PAYOUT_MULTIPLIER * int matchCount;
             existing = (case U a of None \<Rightarrow> 0 | Some v \<Rightarrow> v)
         in case credit_winners w rest (U(a \<mapsto> existing + payoutWei)) of
              (ws, U') \<Rightarrow> ((a, matchCount, payoutWei) # ws, U'))
      else credit_winners w rest U)"

record draw_result =
  dr_drawId :: nat
  dr_winningNumber :: nat
  dr_casinoSeed :: string
  dr_commitment :: "8 word list"
  dr_winners :: "(address \<times> nat \<times> int) list"
  dr_totalPool :: int
  dr_totalTickets :: nat

text \<open>
  \<open>executeDraw(drawId, signState)\<close>. It is handed the draw id and the signer only, never
  a channel, and it does not call the signer: the state it can change is the plug-in's.
\<close>

definition executeDraw ::
  "hasher \<Rightarrow> string \<Rightarrow> int \<Rightarrow> lotto_state \<Rightarrow> nat \<Rightarrow> (error + draw_result) \<times> lotto_state" where
  "executeDraw H rnd now L did =
     (case map_of (draws L) did of
        None \<Rightarrow> (Inl DrawNotFound, L)
      | Some draw \<Rightarrow>
          if drawn draw then (Inl DrawAlreadyExecuted, L)
          else
            (let agentEntropy = decimal (length (tickets draw)) @ '':'' @
                                decimal_int (totalPool draw);
                 hashBuf = computeResult H (casinoSeed draw) agentEntropy did
             in case readUInt32BE hashBuf 0 of
                  None \<Rightarrow> (Inl BufferOutOfRange, L)
                | Some u \<Rightarrow>
                    (let w = u mod RANGE + 1;
                         draw' = draw\<lparr>winningNumber := Some w, drawn := True,
                                      drawnAt := Some now\<rparr>
                     in case credit_winners w (tickets draw) (unclaimedWinnings L) of
                          (winners, U') \<Rightarrow>
                            (Inr \<lparr>dr_drawId = did, dr_winningNumber = w,
                                  dr_casinoSeed = casinoSeed draw,
                                  dr_commitment = commitment draw,
                                  dr_winners = winners,
                                  dr_totalPool = totalPool draw,
                                  dr_totalTickets = length (concat (map snd (tickets draw)))\<rparr>,
                             startNewDraw H rnd now
                               (L\<lparr>draws := AList.update did draw' (draws L),
                                  unclaimedWinnings := U'\<rparr>)))))"

text \<open>
  The result of \<open>_claim\<close>: the object with \<open>claimed: '0'\<close> and a message when nothing is
  unclaimed, the signed state otherwise.
\<close>

datatype claim_result =
    NothingToClaim string string
  | Claimed int int int int nat signature

definition lotto_claim ::
  "signer \<Rightarrow> channel \<Rightarrow> lotto_state \<Rightarrow> (error + claim_result) \<times> channel \<times> lotto_state" where
  "lotto_claim sg ch L =
     (let unclaimed = unclaimed_of L (agent ch) in
      if unclaimed = 0 then (Inr (NothingToClaim ''0'' ''No unclaimed winnings''), ch, L)
      else
        (let claimable = (if unclaimed > casinoBalance ch then casinoBalance ch else unclaimed);
             ch' = ch\<lparr>agentBalance := agentBalance ch + claimable,
                      casinoBalance := casinoBalance ch - claimable,
                      nonce := nonce ch + 1\<rparr>;
             remaining = unclaimed - claimable;
             L' = L\<lparr>unclaimedWinnings :=
                      (if remaining > 0 then (unclaimedWinnings L)(agent ch \<mapsto> remaining)
                       else (unclaimedWinnings L)(agent ch := None))\<rparr>
         in case sg (agent ch') (agentBalance ch') (casinoBalance ch') (nonce ch') of
              None \<Rightarrow> (Inl SignerFailed, ch', L')
            | Some sig \<Rightarrow>
                (Inr (Claimed claimable remaining (agentBalance ch') (casinoBalance ch')
                        (nonce ch') sig),
                 ch', L')))"

text \<open>\<open>applyWinnings(channel, payoutWei, ctx)\<close>, called by the engine's scheduler.\<close>

definition applyWinnings ::
  "signer \<Rightarrow> channel \<Rightarrow> int \<Rightarrow> lotto_state
     \<Rightarrow> (error + int \<times> signature \<times> nat) \<times> channel \<times> lotto_state" where
  "applyWinnings sg ch payoutWei L =
     (let cappedPayout = (if payoutWei > casinoBalance ch then casinoBalance ch else payoutWei);
          ch' = ch\<lparr>agentBalance := agentBalance ch + cappedPayout,
                   casinoBalance := casinoBalance ch - cappedPayout,
                   nonce := nonce ch + 1\<rparr>;
          unclaimed = unclaimed_of L (agent ch);
          L' = (if unclaimed \<ge> cappedPayout
                then L\<lparr>unclaimedWinnings :=
                         (if unclaimed - cappedPayout > 0
                          then (unclaimedWinnings L)(agent ch \<mapsto> unclaimed - cappedPayout)
                          else (unclaimedWinnings L)(agent ch := None))\<rparr>
                else L)
      in case sg (agent ch') (agentBalance ch') (casinoBalance ch') (nonce ch') of
           None \<Rightarrow> (Inl SignerFailed, ch', L')
         | Some sig \<Rightarrow> (Inr (cappedPayout, sig, nonce ch'), ch', L'))"

definition getPendingDraws :: "int \<Rightarrow> lotto_state \<Rightarrow> nat list" where
  "getPendingDraws now L =
     map fst (filter (\<lambda>(did, d). \<not> drawn d \<and> now \<ge> drawTime d) (draws L))"

subsection \<open>GamingEngine\<close>

text \<open>
  The engine's tables. The three plug-ins are registered, as the server does at start-up;
  of the lotto plug-in the engine state holds the draws and the unclaimed winnings.
\<close>

record engine =
  channels :: "address \<rightharpoonup> channel"
  pendingCommits :: pending_commits
  lotto :: lotto_state

text \<open>
  What one call takes from outside: the clock, the signer as it answers during the call,
  and the random seeds drawn during the call (the \<open>k\<close>-th call of \<open>commit()\<close>).
\<close>

record env =
  e_now :: int
  e_sign :: signer
  e_rnd :: "nat \<Rightarrow> string"

definition engine_init :: "hasher \<Rightarrow> string \<Rightarrow> int \<Rightarrow> engine" where
  "engine_init H rnd now =
     \<lparr>channels = Map.empty, pendingCommits = Map.empty, lotto = lotto_init H rnd now\<rparr>"

definition openChannel ::
  "int \<Rightarrow> engine \<Rightarrow> address \<Rightarrow> int \<Rightarrow> int \<Rightarrow> (error + int \<times> int) \<times> engine" where
  "openChannel now E a agentDep casinoDep =
     (if channels E a \<noteq> None then (Inl ChannelAlreadyExists, E)
      else (Inr (agentDep, casinoDep),
            E\<lparr>channels := (channels E)(a \<mapsto>
                 \<lparr>agent = a, agentDeposit = agentDep, casinoDeposit = casinoDep,
                  agentBalance = agentDep, casinoBalance = casinoDep, nonce = 0,
                  games = [], createdAt = now\<rparr>)\<rparr>))"

record channel_status =
  st_agentBalance :: int
  st_casinoBalance :: int
  st_nonce :: nat
  st_gamesPlayed :: nat
  st_invariantOk :: bool

text \<open>\<open>getChannelStatus\<close>: \<open>None\<close> is the answer \<open>{ status: 'not_found' }\<close>.\<close>

definition getChannelStatus :: "engine \<Rightarrow> address \<Rightarrow> channel_status option" where
  "getChannelStatus E a =
     (case channels E a of
        None \<Rightarrow> None
      | Some ch \<Rightarrow>
          Some \<lparr>st_agentBalance = agentBalance ch, st_casinoBalance = casinoBalance ch,
                st_nonce = nonce ch, st_gamesPlayed = length (games ch),
                st_invariantOk =
                  (agentDeposit ch + casinoDeposit ch = agentBalance ch + casinoBalance ch)\<rparr>)"

record close_result =
  cl_agentBalance :: int
  cl_casinoBalance :: int
  cl_nonce :: nat
  cl_signature :: signature
  cl_totalGames :: nat

definition closeChannel :: "signer \<Rightarrow> engine \<Rightarrow> address \<Rightarrow> (error + close_result) \<times> engine" where
  "closeChannel sg E a =
     (case channels E a of
        None \<Rightarrow> (Inl ChannelNotFound, E)
      | Some ch \<Rightarrow>
          if agentDeposit ch + casinoDeposit ch \<noteq> agentBalance ch + casinoBalance ch
          then (Inl InvariantViolation, E)
          else case sg a (agentBalance ch) (casinoBalance ch) (nonce ch) of
                 None \<Rightarrow> (Inl SignerFailed, E)
               | Some sig \<Rightarrow>
                   (Inr \<lparr>cl_agentBalance = agentBalance ch,
                         cl_casinoBalance = casinoBalance ch,
                         cl_nonce = nonce ch, cl_signature = sig,
                         cl_totalGames = length (games ch)\<rparr>,
                    E\<lparr>channels := (channels E)(a := None)\<rparr>))"

text \<open>
  The routes \<open><game>_<action>\<close> that take a channel, as a closed set. The read-only routes
  \<open>lotto_status\<close> and \<open>lotto_history\<close> take no channel and change nothing; they are left out.
\<close>

datatype action =
    SlotsCommit int
  | SlotsReveal string
  | CoinflipCommit string int
  | CoinflipReveal string
  | LottoBuy int int
  | LottoClaim

datatype action_result =
    SlotsCommitted "8 word list \<times> int"
  | SlotsRevealed slots_result
  | CoinflipCommitted "8 word list \<times> int \<times> string"
  | CoinflipRevealed coinflip_result
  | LottoBought buy_result
  | LottoClaimed claim_result

text \<open>
  \<open>handleGameAction\<close>: the channel is looked up first; the plug-in then works on the
  channel object of the table, so what it did to it stays in the table on every path.
\<close>

definition handleGameAction ::
  "hasher \<Rightarrow> env \<Rightarrow> engine \<Rightarrow> address \<Rightarrow> action \<Rightarrow> (error + action_result) \<times> engine" where
  "handleGameAction H ev E a act =
     (case channels E a of
        None \<Rightarrow> (Inl ChannelNotFound, E)
      | Some ch \<Rightarrow>
          (case act of
             SlotsCommit bet \<Rightarrow>
               (case slots_commit H (e_rnd ev 0) (e_now ev) ch bet (pendingCommits E) of
                  (r, pc') \<Rightarrow> (map_sum id SlotsCommitted r, E\<lparr>pendingCommits := pc'\<rparr>))
           | SlotsReveal agentSeed \<Rightarrow>
               (case slots_reveal H (e_sign ev) (e_now ev) ch agentSeed (pendingCommits E) of
                  (r, ch', pc') \<Rightarrow>
                    (map_sum id SlotsRevealed r,
                     E\<lparr>channels := (channels E)(a \<mapsto> ch'), pendingCommits := pc'\<rparr>))
           | CoinflipCommit c bet \<Rightarrow>
               (case coinflip_commit H (e_rnd ev 0) (e_now ev) ch c bet (pendingCommits E) of
                  (r, pc') \<Rightarrow> (map_sum id CoinflipCommitted r, E\<lparr>pendingCommits := pc'\<rparr>))
           | CoinflipReveal agentSeed \<Rightarrow>
               (case coinflip_reveal H (e_sign ev) (e_now ev) ch agentSeed (pendingCommits E) of
                  (r, ch', pc') \<Rightarrow>
                    (map_sum id CoinflipRevealed r,
                     E\<lparr>channels := (channels E)(a \<mapsto> ch'), pendingCommits := pc'\<rparr>))
           | LottoBuy pickedNumber ticketCount \<Rightarrow>
               (case lotto_buy (e_sign ev) (e_now ev) ch pickedNumber ticketCount (lotto E) of
                  (r, ch', L') \<Rightarrow>
                    (map_sum id LottoBought r,
                     E\<lparr>channels := (channels E)(a \<mapsto> ch'), lotto := L'\<rparr>))
           | LottoClaim \<Rightarrow>
               (case lotto_claim (e_sign ev) ch (lotto E) of
                  (r, ch', L') \<Rightarrow>
                    (map_sum id LottoClaimed r,
                     E\<lparr>channels := (channels E)(a \<mapsto> ch'), lotto := L'\<rparr>))))"

text \<open>
  \<open>runScheduledTasks\<close>. For each pending draw: \<open>executeDraw\<close>, then \<open>applyWinnings\<close> for
  every winner whose channel is open, with the payout of the winner's entry. A throw
  inside the \<open>try\<close> block ends the work on that draw and is swallowed; what was changed
  before it stays. The returned report is left out.
\<close>

fun applyToWinners ::
  "signer \<Rightarrow> (address \<rightharpoonup> channel) \<Rightarrow> lotto_state \<Rightarrow> (address \<times> nat \<times> int) list
     \<Rightarrow> (address \<rightharpoonup> channel) \<times> lotto_state" where
  "applyToWinners sg C L [] = (C, L)"
| "applyToWinners sg C L ((a, m, payoutWei) # ws) =
     (case C a of
        None \<Rightarrow> applyToWinners sg C L ws
      | Some ch \<Rightarrow>
          (case applyWinnings sg ch payoutWei L of
             (Inl e, ch', L') \<Rightarrow> (C(a \<mapsto> ch'), L')
           | (Inr r, ch', L') \<Rightarrow> applyToWinners sg (C(a \<mapsto> ch')) L' ws))"

fun runDraws :: "hasher \<Rightarrow> env \<Rightarrow> nat \<Rightarrow> nat list \<Rightarrow> engine \<Rightarrow> engine" where
  "runDraws H ev k [] E = E"
| "runDraws H ev k (did # rest) E =
     (case executeDraw H (e_rnd ev k) (e_now ev) (lotto E) did of
        (Inl e, L') \<Rightarrow> runDraws H ev (k + 1) rest (E\<lparr>lotto := L'\<rparr>)
      | (Inr res, L') \<Rightarrow>
          (case applyToWinners (e_sign ev) (channels E) L' (dr_winners res) of
             (C', L'') \<Rightarrow> runDraws H ev (k + 1) rest (E\<lparr>channels := C', lotto := L''\<rparr>)))"

definition runScheduledTasks :: "hasher \<Rightarrow> env \<Rightarrow> engine \<Rightarrow> engine" where
  "runScheduledTasks H ev E = runDraws H ev 0 (getPendingDraws (e_now ev) (lotto E)) E"

text \<open>The operations of the engine, and a sequence of them run from a state.\<close>

datatype operation =
    OpenChannel address int int
  | CloseChannel address
  | GameAction address action
  | RunScheduledTasks

fun step :: "hasher \<Rightarrow> env \<times> operation \<Rightarrow> engine \<Rightarrow> engine" where
  "step H (ev, OpenChannel a agentDep casinoDep) E = snd (openChannel (e_now ev) E a agentDep casinoDep)"
| "step H (ev, CloseChannel a) E = snd (closeChannel (e_sign ev) E a)"
| "step H (ev, GameAction a act) E = snd (handleGameAction H ev E a act)"
| "step H (ev, RunScheduledTasks) E = runScheduledTasks H ev E"

fun run :: "hasher \<Rightarrow> engine \<Rightarrow> (env \<times> operation) list \<Rightarrow> engine" where
  "run H E [] = E"
| "run H E (eo # rest) = run H (step H eo E) rest"

text \<open>A sequence is legal when every channel is opened with non-negative deposits.\<close>

fun legal :: "operation \<Rightarrow> bool" where
  "legal (OpenChannel a agentDep casinoDep) = (0 \<le> agentDep \<and> 0 \<le> casinoDep)"
| "legal _ = True"

definition engine_nonneg :: "engine \<Rightarrow> bool" where
  "engine_nonneg E = (\<forall>a ch. channels E a = Some ch \<longrightarrow> nonneg ch)"

subsection \<open>ChannelManager (settlement contract)\<close>

text \<open>
  The contract with its two modules, BankrollManager and InsuranceFund, wired to it as the
  deployment does. A \<open>uint256\<close> is a \<open>nat\<close> below \<open>2 ^ 256\<close>; checked arithmetic that
  leaves that range reverts with \<open>Panic\<close>. A transaction that reverts leaves the chain as
  it was, so a call returns either the revert or the new state. Whether a payee accepts a
  transfer made with \<open>call\<close> is a parameter; \<open>received\<close> counts what an account was paid.
\<close>

datatype ChannelState = StNone | StOpen | StDisputed | StClosed

record Channel =
  c_agentDeposit :: nat
  c_casinoDeposit :: nat
  c_agentBalance :: nat
  c_casinoBalance :: nat
  c_nonce :: nat
  c_openedAt :: nat
  c_disputeDeadline :: nat
  c_state :: ChannelState

datatype revert =
    EnforcedPause
  | InvalidDeposit
  | ChannelExists
  | ChannelNotOpen
  | StaleNonce
  | BalanceMismatch
  | InvalidSignature
  | TooEarly
  | GamesPlayed
  | NotCasino
  | ExposureLimitReached
  | InsufficientLocked
  | Panic

record chain =
  casino :: address
  paused :: bool
  cm_channels :: "address \<Rightarrow> Channel"
  pendingWithdrawals :: "address \<Rightarrow> nat"
  totalLocked :: nat
  maxExposure :: nat
  insuranceFundBalance :: nat
  received :: "address \<Rightarrow> nat"

definition MIN_DEPOSIT :: nat where
  "MIN_DEPOSIT = 1000000000000000"

definition MAX_DEPOSIT :: nat where
  "MAX_DEPOSIT = 10000000000000000000"

definition MIN_CHANNEL_DURATION :: nat where
  "MIN_CHANNEL_DURATION = 3600"

definition INSURANCE_BPS :: nat where
  "INSURANCE_BPS = 1000"

definition uint256_max :: nat where
  "uint256_max = 2 ^ 256 - 1"

text \<open>The value of a deleted or never written \<open>channels[agent]\<close>.\<close>

definition no_channel :: Channel where
  "no_channel = \<lparr>c_agentDeposit = 0, c_casinoDeposit = 0, c_agentBalance = 0,
                  c_casinoBalance = 0, c_nonce = 0, c_openedAt = 0, c_disputeDeadline = 0,
                  c_state = StNone\<rparr>"

definition cm_openChannel :: "address \<Rightarrow> nat \<Rightarrow> nat \<Rightarrow> chain \<Rightarrow> revert + chain" where
  "cm_openChannel sender val now S =
     (if paused S then Inl EnforcedPause
      else if val < MIN_DEPOSIT \<or> val > MAX_DEPOSIT then Inl InvalidDeposit
      else if c_state (cm_channels S sender) \<noteq> StNone then Inl ChannelExists
      else Inr (S\<lparr>cm_channels := (cm_channels S)(sender :=
                  \<lparr>c_agentDeposit = val, c_casinoDeposit = 0, c_agentBalance = val,
                   c_casinoBalance = 0, c_nonce = 0, c_openedAt = now,
                   c_disputeDeadline = 0, c_state = StOpen\<rparr>)\<rparr>))"

text \<open>\<open>BankrollManager.lockCollateral\<close> and \<open>unlockCollateral\<close>, called by the contract.\<close>

definition lockCollateral :: "nat \<Rightarrow> chain \<Rightarrow> revert + chain" where
  "lockCollateral amount S =
     (if totalLocked S + amount > uint256_max then Inl Panic
      else if totalLocked S + amount > maxExposure S then Inl ExposureLimitReached
      else Inr (S\<lparr>totalLocked := totalLocked S + amount\<rparr>))"

definition unlockCollateral :: "nat \<Rightarrow> chain \<Rightarrow> revert + chain" where
  "unlockCollateral amount S =
     (if amount > totalLocked S then Inl InsufficientLocked
      else Inr (S\<lparr>totalLocked := totalLocked S - amount\<rparr>))"

definition fundCasinoSide :: "address \<Rightarrow> address \<Rightarrow> nat \<Rightarrow> chain \<Rightarrow> revert + chain" where
  "fundCasinoSide sender a val S =
     (if sender \<noteq> casino S then Inl NotCasino
      else if c_state (cm_channels S a) \<noteq> StOpen then Inl ChannelNotOpen
      else case lockCollateral val S of
        Inl r \<Rightarrow> Inl r
      | Inr S1 \<Rightarrow>
          (let ch = cm_channels S1 a in
           if c_casinoDeposit ch + val > uint256_max \<or> c_casinoBalance ch + val > uint256_max
           then Inl Panic
           else Inr (S1\<lparr>cm_channels := (cm_channels S1)(a :=
                       ch\<lparr>c_casinoDeposit := c_casinoDeposit ch + val,
                          c_casinoBalance := c_casinoBalance ch + val\<rparr>)\<rparr>)))"

text \<open>A transfer with \<open>call\<close>: credited to the pull-payment map when the payee refuses it.\<close>

definition pay :: "(address \<Rightarrow> bool) \<Rightarrow> address \<Rightarrow> nat \<Rightarrow> chain \<Rightarrow> chain" where
  "pay accepts payee amount S =
     (if amount > 0 then
        (if accepts payee then S\<lparr>received := (received S)(payee := received S payee + amount)\<rparr>
         else S\<lparr>pendingWithdrawals :=
                  (pendingWithdrawals S)(payee := pendingWithdrawals S payee + amount)\<rparr>)
      else S)"

text \<open>
  \<open>_settle\<close>: returns the insurance skim and the two payouts with the new state.
\<close>

definition settle ::
  "(address \<Rightarrow> bool) \<Rightarrow> address \<Rightarrow> nat \<Rightarrow> nat \<Rightarrow> chain \<Rightarrow> revert + (nat \<times> nat \<times> nat) \<times> chain" where
  "settle accepts a agentPayout casinoPayout S =
     (let casinoDep = c_casinoDeposit (cm_channels S a) in
      case (if casinoDep > 0 then unlockCollateral casinoDep S else Inr S) of
        Inl r \<Rightarrow> Inl r
      | Inr S1 \<Rightarrow>
          if casinoPayout > casinoDep \<and> (casinoPayout - casinoDep) * INSURANCE_BPS > uint256_max
          then Inl Panic
          else
            (let insuranceAmount =
                   (if casinoPayout > casinoDep
                    then ((casinoPayout - casinoDep) * INSURANCE_BPS) div 10000 else 0);
                 casinoPayout' = casinoPayout - insuranceAmount;
                 S2 = S1\<lparr>cm_channels := (cm_channels S1)(a := no_channel)\<rparr>;
                 S3 = (if insuranceAmount > 0
                       then S2\<lparr>insuranceFundBalance := insuranceFundBalance S2 + insuranceAmount\<rparr>
                       else S2);
                 S4 = pay accepts a agentPayout S3;
                 S5 = pay accepts (casino S4) casinoPayout' S4
             in Inr ((insuranceAmount, agentPayout, casinoPayout'), S5)))"

text \<open>
  \<open>closeChannel\<close>. The signature check is the parameter \<open>recover\<close>: the account that
  ECDSA recovery gives for the EIP-712 digest of the state, \<open>None\<close> when recovery reverts.
  A recovery that reverts and a signer other than the casino both end the call; the model
  reports both as \<open>InvalidSignature\<close>.
\<close>

definition cm_closeChannel ::
  "(address \<Rightarrow> nat \<Rightarrow> nat \<Rightarrow> nat \<Rightarrow> signature \<Rightarrow> address option) \<Rightarrow> (address \<Rightarrow> bool)
     \<Rightarrow> address \<Rightarrow> nat \<Rightarrow> nat \<Rightarrow> nat \<Rightarrow> signature \<Rightarrow> chain
     \<Rightarrow> revert + (nat \<times> nat \<times> nat) \<times> chain" where
  "cm_closeChannel recover accepts sender agentBal casinoBal n casinoSig S =
     (let ch = cm_channels S sender in
      if c_state ch \<noteq> StOpen then Inl ChannelNotOpen
      else if n \<le> c_nonce ch then Inl StaleNonce
      else if agentBal + casinoBal > uint256_max
              \<or> c_agentDeposit ch + c_casinoDeposit ch > uint256_max then Inl Panic
      else if agentBal + casinoBal \<noteq> c_agentDeposit ch + c_casinoDeposit ch
      then Inl BalanceMismatch
      else if recover sender agentBal casinoBal n casinoSig \<noteq> Some (casino S)
      then Inl InvalidSignature
      else settle accepts sender agentBal casinoBal S)"

definition emergencyExit ::
  "(address \<Rightarrow> bool) \<Rightarrow> address \<Rightarrow> nat \<Rightarrow> chain \<Rightarrow> revert + (nat \<times> nat \<times> nat) \<times> chain" where
  "emergencyExit accepts sender now S =
     (let ch = cm_channels S sender in
      if c_state ch \<noteq> StOpen then Inl ChannelNotOpen
      else if c_nonce ch \<noteq> 0 then Inl GamesPlayed
      else if c_openedAt ch + MIN_CHANNEL_DURATION > uint256_max then Inl Panic
      else if now < c_openedAt ch + MIN_CHANNEL_DURATION then Inl TooEarly
      else settle accepts sender (c_agentDeposit ch) (c_casinoDeposit ch) S)"

subsection \<open>Example states\<close>

text \<open>
  Concrete channels used to evaluate the statements below: an agent with 1000 wei facing
  a house with 579 wei, and an agent with 0.1 ether facing a house with 10 ether.
\<close>

definition ex_poor_house :: channel where
  "ex_poor_house = mk_channel ''0x1111'' 1000 579 1000 579 0"

definition ex_rich_house :: channel where
  "ex_rich_house =
     mk_channel ''0x1111'' 100000000000000000 10000000000000000000
       100000000000000000 10000000000000000000 0"

text \<open>Collaborators for the examples: a digest of 32 zero bytes, a signer that answers and one that throws.\<close>

definition zero_hash :: hasher where
  "zero_hash s = replicate 32 0"

definition ok_signer :: signer where
  "ok_signer a ab cb n = Some ''signed''"

definition failing_signer :: signer where
  "failing_signer a ab cb n = None"

text \<open>A pending slots commit of 1000 wei made at time 0 by the example agent, and one of coinflip on heads for 1 wei.\<close>

definition ex_slots_pending :: pending_commits where
  "ex_slots_pending =
     Map.empty(commitKey ''0x1111'' Slots \<mapsto>
       \<lparr>seed = ''c0ffee'', betWei = 1000, choice = None, game = ''slots'', timestamp = 0\<rparr>)"

definition ex_coinflip_pending :: pending_commits where
  "ex_coinflip_pending =
     Map.empty(commitKey ''0x1111'' Coinflip \<mapsto>
       \<lparr>seed = ''c0ffee'', betWei = 1, choice = Some ''heads'', game = ''coinflip'',
        timestamp = 0\<rparr>)"

text \<open>An agent left with 5 wei, less than the 1000 wei of the pending slots commit.\<close>

definition ex_drained :: channel where
  "ex_drained = mk_channel ''0x1111'' 1000 1000000 5 1000995 7"

subsection \<open>The specification's wording of the reel derivation\<close>

text \<open>
  The big-endian unsigned 32-bit integer at a byte offset of the digest, and the bucket of
  a number below 100 in the cumulative weight vector \<open>{30, 25, 20, 15, 10}\<close>.
\<close>

definition uint32_be :: "8 word list \<Rightarrow> nat \<Rightarrow> nat" where
  "uint32_be h k =
     unat (h ! k) * 2 ^ 24 + unat (h ! (k + 1)) * 2 ^ 16 + unat (h ! (k + 2)) * 2 ^ 8
       + unat (h ! (k + 3))"

definition weight_bucket :: "nat \<Rightarrow> nat" where
  "weight_bucket r =
     (if r < 30 then 0 else if r < 55 then 1 else if r < 75 then 2 else if r < 90 then 3 else 4)"

text \<open>A lotto plug-in as constructed at time 0, where nobody has unclaimed winnings.\<close>

definition ex_lotto :: lotto_state where
  "ex_lotto = lotto_init zero_hash ''5eed'' 0"

text \<open>
  A draw in which the example agent holds three tickets, on 1, 1 and 42, and the plug-in
  after that draw has been executed with the digest of zero bytes (winning number 1).
\<close>

definition ex_draw :: lotto_draw where
  "ex_draw =
     \<lparr>drawId = 1, casinoSeed = ''5eed'', commitment = zero_hash ''5eed'',
      drawTime = 21600000, tickets = [(''0x1111'', [1, 1, 42])],
      totalPool = 3000000000000000, winningNumber = None, drawn = False, drawnAt = None\<rparr>"

definition ex_lotto_sold :: lotto_state where
  "ex_lotto_sold = \<lparr>draws = [(1, ex_draw)], currentDrawId = 1, unclaimedWinnings = Map.empty\<rparr>"

definition ex_lotto_drawn :: lotto_state where
  "ex_lotto_drawn = snd (executeDraw zero_hash ''n3w'' 21600000 ex_lotto_sold 1)"





text \<open>
  A chain on which the example agent has opened a channel with 0.01 ether at time 1000 and
  the house has funded it with 0.01 ether; every signature recovers to the house and
  every payee accepts transfers.
\<close>

definition ex_chain0 :: chain where
  "ex_chain0 =
     \<lparr>casino = ''0xca51'', paused = False, cm_channels = (\<lambda>a. no_channel),
      pendingWithdrawals = (\<lambda>a. 0), totalLocked = 0,
      maxExposure = 100000000000000000000, insuranceFundBalance = 0,
      received = (\<lambda>a. 0)\<rparr>"

definition ex_chain_open :: chain where
  "ex_chain_open =
     ex_chain0\<lparr>cm_channels := (cm_channels ex_chain0)(''0x1111'' :=
       \<lparr>c_agentDeposit = 10000000000000000, c_casinoDeposit = 0,
        c_agentBalance = 10000000000000000, c_casinoBalance = 0, c_nonce = 0,
        c_openedAt = 1000, c_disputeDeadline = 0, c_state = StOpen\<rparr>)\<rparr>"

definition ex_chain_funded :: chain where
  "ex_chain_funded =
     ex_chain0\<lparr>cm_channels := (cm_channels ex_chain0)(''0x1111'' :=
       \<lparr>c_agentDeposit = 10000000000000000, c_casinoDeposit = 10000000000000000,
        c_agentBalance = 10000000000000000, c_casinoBalance = 10000000000000000, c_nonce = 0,
        c_openedAt = 1000, c_disputeDeadline = 0, c_state = StOpen\<rparr>),
       totalLocked := 10000000000000000\<rparr>"

definition ex_recover :: "address \<Rightarrow> nat \<Rightarrow> nat \<Rightarrow> nat \<Rightarrow> signature \<Rightarrow> address option" where
  "ex_recover a ab cb n sig = Some ''0xca51''"

definition ex_accepts :: "address \<Rightarrow> bool" where
  "ex_accepts a = True"

text \<open>0.01 ether in wei.\<close>

definition centi_ether :: nat where
  "centi_ether = 10000000000000000"

text \<open>
  The chain \<open>S0\<close> after agent \<open>a\<close> has opened a channel with \<open>v\<close> at time \<open>t0\<close> and the
  house has funded it with \<open>w\<close>.
\<close>

definition opened_and_funded :: "chain \<Rightarrow> address \<Rightarrow> nat \<Rightarrow> nat \<Rightarrow> nat \<Rightarrow> chain" where
  "opened_and_funded S0 a v w t0 =
     S0\<lparr>cm_channels := (cm_channels S0)(a :=
          \<lparr>c_agentDeposit = v, c_casinoDeposit = w, c_agentBalance = v,
           c_casinoBalance = w, c_nonce = 0, c_openedAt = t0,
           c_disputeDeadline = 0, c_state = StOpen\<rparr>),
        totalLocked := totalLocked S0 + w\<rparr>"

subsection \<open>Relations between a channel before and after an operation\<close>

text \<open>
  A symmetric update moves some amount \<open>x\<close> (of either sign) from one side to the other;
  \<open>same_total\<close> says that the sum of the balances and both deposits are as before.
\<close>

definition symmetric_update :: "channel \<Rightarrow> channel \<Rightarrow> bool" where
  "symmetric_update ch ch' =
     (\<exists>x. agentBalance ch' = agentBalance ch + x \<and> casinoBalance ch' = casinoBalance ch - x)"

definition same_total :: "channel \<Rightarrow> channel \<Rightarrow> bool" where
  "same_total ch ch' =
     (agentBalance ch' + casinoBalance ch' = agentBalance ch + casinoBalance ch
      \<and> agentDeposit ch' = agentDeposit ch \<and> casinoDeposit ch' = casinoDeposit ch)"


text \<open>The number of an agent's tickets in a draw that match the number \<open>w\<close>.\<close>

definition matching :: "nat \<Rightarrow> lotto_draw \<Rightarrow> address \<Rightarrow> nat" where
  "matching w d a =
     length (filter (\<lambda>t. t = int w)
       (case map_of (tickets d) a of None \<Rightarrow> [] | Some ts \<Rightarrow> ts))"

text \<open>
  The invariant of the engine behind non-negativity: no channel has a negative balance,
  every stored commit has a positive bet, and no unclaimed amount is negative.
\<close>

definition chans_ok :: "(address \<rightharpoonup> channel) \<Rightarrow> bool" where
  "chans_ok C = (\<forall>a ch. C a = Some ch \<longrightarrow> nonneg ch)"

definition pc_ok :: "pending_commits \<Rightarrow> bool" where
  "pc_ok pc = (\<forall>k p. pc k = Some p \<longrightarrow> 0 < betWei p)"

definition unclaimed_ok :: "lotto_state \<Rightarrow> bool" where
  "unclaimed_ok L = (\<forall>a u. unclaimedWinnings L a = Some u \<longrightarrow> 0 \<le> u)"

definition engine_inv :: "engine \<Rightarrow> bool" where
  "engine_inv E = (chans_ok (channels E) \<and> pc_ok (pendingCommits E) \<and> unclaimed_ok (lotto E))"

definition legal_sequence :: "(env \<times> operation) list \<Rightarrow> bool" where
  "legal_sequence evs = list_all (\<lambda>eo. legal (snd eo)) evs"

text \<open>
  A run of the engine: the example agent opens a channel (0.1 ether against 10 ether),
  commits 1000 wei to slots and reveals, all at time 0 with a signer that answers.
\<close>

definition ex_env :: env where
  "ex_env = \<lparr>e_now = 0, e_sign = ok_signer, e_rnd = (\<lambda>k. ''c0ffee'')\<rparr>"

definition ex_ops :: "(env \<times> operation) list" where
  "ex_ops =
     [(ex_env, OpenChannel ''0x1111'' 100000000000000000 10000000000000000000),
      (ex_env, GameAction ''0x1111'' (SlotsCommit 1000)),
      (ex_env, GameAction ''0x1111'' (SlotsReveal ''feed''))]"

definition chans_conserved :: "(address \<rightharpoonup> channel) \<Rightarrow> bool" where
  "chans_conserved C = (\<forall>a ch. C a = Some ch \<longrightarrow> conserved ch)"

definition engine_conserved :: "engine \<Rightarrow> bool" where
  "engine_conserved E = (\<forall>a ch. channels E a = Some ch \<longrightarrow> conserved ch)"

section \<open>Bet validation\<close>

lemma maxMultiplier_pos: "0 < maxMultiplier g"
  by (cases g) simp_all

lemma validateBet_None_iff:
  "validateBet g ch bet 2 = None \<longleftrightarrow>
     0 < bet \<and> bet \<le> agentBalance ch \<and> bet * maxMultiplier g * 2 \<le> casinoBalance ch"
  by (auto simp: validateBet_def Let_def)

lemma validateBet_fails_iff:
  "validateBet g ch bet 2 \<noteq> None \<longleftrightarrow>
     bet \<le> 0 \<or> agentBalance ch < bet \<or> bet * maxMultiplier g * 2 > casinoBalance ch"
  by (auto simp: validateBet_def Let_def)

lemma floor_bet_fits:
  fixes h m :: int
  assumes "0 < m"
  shows "(h div (m * 2)) * m * 2 \<le> h" and "h < (h div (m * 2) + 1) * m * 2"
proof -
  have pos: "0 < m * 2" using assms by simp
  have "h = (m * 2) * (h div (m * 2)) + h mod (m * 2)" by simp
  moreover have "0 \<le> h mod (m * 2)" "h mod (m * 2) < m * 2"
    using pos by simp_all
  ultimately show "(h div (m * 2)) * m * 2 \<le> h" and "h < (h div (m * 2) + 1) * m * 2"
    by (simp_all add: algebra_simps)
qed

text \<open>
  C5 (as amended). With safety factor 2, \<open>validateBet\<close> fails exactly when the bet is not
  positive, or exceeds the agent's balance, or \<open>bet * maxMultiplier * 2\<close> exceeds the house
  balance. The bet \<open>floor(houseBalance / (maxMultiplier * 2))\<close> is accepted when it is
  positive and the agent's balance covers it, and the bet one wei higher is rejected.
\<close>

theorem validateBet_boundary:
  "(validateBet g ch bet 2 \<noteq> None \<longleftrightarrow>
      bet \<le> 0 \<or> agentBalance ch < bet \<or> bet * maxMultiplier g * 2 > casinoBalance ch)
   \<and> (0 < casinoBalance ch div (maxMultiplier g * 2)
        \<and> casinoBalance ch div (maxMultiplier g * 2) \<le> agentBalance ch
      \<longrightarrow> validateBet g ch (casinoBalance ch div (maxMultiplier g * 2)) 2 = None
          \<and> validateBet g ch (casinoBalance ch div (maxMultiplier g * 2) + 1) 2 \<noteq> None)"
proof (intro conjI impI)
  show "validateBet g ch bet 2 \<noteq> None \<longleftrightarrow>
      bet \<le> 0 \<or> agentBalance ch < bet \<or> bet * maxMultiplier g * 2 > casinoBalance ch"
    by (rule validateBet_fails_iff)
next
  assume h: "0 < casinoBalance ch div (maxMultiplier g * 2)
        \<and> casinoBalance ch div (maxMultiplier g * 2) \<le> agentBalance ch"
  show "validateBet g ch (casinoBalance ch div (maxMultiplier g * 2)) 2 = None"
    using h floor_bet_fits(1)[OF maxMultiplier_pos, of "casinoBalance ch" g]
    by (simp add: validateBet_None_iff)
next
  show "validateBet g ch (casinoBalance ch div (maxMultiplier g * 2) + 1) 2 \<noteq> None"
    using floor_bet_fits(2)[OF maxMultiplier_pos, of "casinoBalance ch" g]
      validateBet_fails_iff[of g ch "casinoBalance ch div (maxMultiplier g * 2) + 1"]
    by blast
qed

text \<open>
  The amended statement at a house of 10 ether and an agent of 0.1 ether playing slots:
  the largest accepted bet is 17241379310344827 wei.
\<close>

theorem validateBet_boundary_witness:
  "0 < casinoBalance ex_rich_house div (maxMultiplier Slots * 2)
   \<and> casinoBalance ex_rich_house div (maxMultiplier Slots * 2) \<le> agentBalance ex_rich_house
   \<and> casinoBalance ex_rich_house div (maxMultiplier Slots * 2) = 17241379310344827
   \<and> validateBet Slots ex_rich_house 17241379310344827 2 = None
   \<and> validateBet Slots ex_rich_house 17241379310344828 2 \<noteq> None"
  using validateBet_boundary [of Slots ex_rich_house 0]
  by (simp add: ex_rich_house_def mk_channel_def)

text \<open>
  The statement as first written fails where the floor is 0: with a house of 579 wei the
  bet \<open>floor(579 / 580) = 0\<close> is covered by the agent's balance and is rejected as not
  positive.
\<close>

theorem validateBet_floor_counterexample:
  "casinoBalance ex_poor_house div (maxMultiplier Slots * 2) = 0
   \<and> casinoBalance ex_poor_house div (maxMultiplier Slots * 2) \<le> agentBalance ex_poor_house
   \<and> validateBet Slots ex_poor_house (casinoBalance ex_poor_house div (maxMultiplier Slots * 2)) 2
       = Some BetMustBePositive"
  by (simp add: ex_poor_house_def mk_channel_def validateBet_def)

section \<open>Slots: the reels and the payout\<close>

lemma readUInt32BE_uint32_be:
  "k + 4 \<le> length h \<Longrightarrow> readUInt32BE h k = Some (uint32_be h k)"
  by (simp add: readUInt32BE_def uint32_be_def)

lemma getSymbol_weight_bucket: "r < 100 \<Longrightarrow> getSymbol r = weight_bucket r"
  by (simp add: getSymbol_def WEIGHTS_def weight_bucket_def)

lemma weight_bucket_less: "weight_bucket r < 5"
  by (simp add: weight_bucket_def)

lemma PAYOUTS_pos: "i < 5 \<Longrightarrow> 0 < PAYOUTS ! i"
proof -
  assume "i < 5"
  then have "i = 0 \<or> i = 1 \<or> i = 2 \<or> i = 3 \<or> i = 4" by arith
  then show ?thesis by (auto simp: PAYOUTS_def)
qed

lemma slots_multiplier_nonneg:
  "a < 5 \<Longrightarrow> 0 \<le> slots_multiplier [a, b, c]"
  using PAYOUTS_pos[of a] by (auto simp: slots_multiplier_def)

lemma slots_multiplier_buckets:
  "slots_multiplier [r0, r1, r2] = (if r0 = r1 \<and> r1 = r2 then PAYOUTS ! r0 else 0)"
  by (simp add: slots_multiplier_def)

lemma cap_min: "cap x y = min x y"
  by (simp add: cap_def min_def)

lemma slots_reveal_resolved:
  assumes "pc (commitKey (agent ch) Slots) = Some p"
    and "now - timestamp p \<le> COMMIT_TIMEOUT"
    and "betWei p \<le> agentBalance ch"
    and "length (computeResult H (seed p) agentSeed (nonce ch)) = 32"
  shows "fst (snd (slots_reveal H sg now ch agentSeed pc)) =
     (let h = computeResult H (seed p) agentSeed (nonce ch);
          reels = [weight_bucket (uint32_be h 0 mod 100), weight_bucket (uint32_be h 4 mod 100),
                   weight_bucket (uint32_be h 8 mod 100)];
          multiplier = slots_multiplier reels;
          payoutWei = min (betWei p * multiplier) (casinoBalance ch)
      in ch\<lparr>agentBalance := agentBalance ch - betWei p + payoutWei,
             casinoBalance := casinoBalance ch + betWei p - payoutWei,
             nonce := nonce ch + 1,
             games := games ch @
               [SlotsRound (nonce ch + 1) (betWei p) reels multiplier payoutWei now]\<rparr>)"
  using assms
  by (simp add: slots_reveal_def Let_def readUInt32BE_uint32_be getSymbol_weight_bucket cap_min
      split: option.splits)

text \<open>
  C6 (as amended). For a pending slots commit that has not expired and whose bet the
  agent's balance still covers at reveal: the three reels are the buckets, in the
  cumulative weight vector, of the big-endian 32-bit integers at byte offsets 0, 4 and 8
  of the digest of \<open>casinoSeed:agentSeed:nonce\<close>, each taken modulo 100; the payout is
  \<open>bet * PAYOUTS[reel]\<close> exactly when the three reels are equal and 0 otherwise, capped
  at the house balance; the channel is left with \<open>agentBalance - bet + payout\<close>,
  \<open>houseBalance + bet - payout\<close> and the nonce plus one, and a signer that answers gets
  these values back with the signature. The digest has the 32 bytes of SHA-256.
\<close>

theorem slots_reveal_derivation:
  assumes pending: "pc (commitKey (agent ch) Slots) = Some p"
    and fresh: "now - timestamp p \<le> COMMIT_TIMEOUT"
    and covered: "betWei p \<le> agentBalance ch"
    and digest: "length (H (seed p @ '':'' @ agentSeed @ '':'' @ decimal (nonce ch))) = 32"
  shows "let h = H (seed p @ '':'' @ agentSeed @ '':'' @ decimal (nonce ch));
             r0 = weight_bucket (uint32_be h 0 mod 100);
             r1 = weight_bucket (uint32_be h 4 mod 100);
             r2 = weight_bucket (uint32_be h 8 mod 100);
             won = (if r0 = r1 \<and> r1 = r2 then betWei p * PAYOUTS ! r0 else 0);
             payout = min won (casinoBalance ch);
             ch' = fst (snd (slots_reveal H sg now ch agentSeed pc))
         in PAYOUTS = [5, 10, 25, 50, 290]
            \<and> agentBalance ch' = agentBalance ch - betWei p + payout
            \<and> casinoBalance ch' = casinoBalance ch + betWei p - payout
            \<and> nonce ch' = nonce ch + 1
            \<and> games ch' = games ch @
                 [SlotsRound (nonce ch + 1) (betWei p) [r0, r1, r2]
                    (if r0 = r1 \<and> r1 = r2 then PAYOUTS ! r0 else 0) payout now]
            \<and> (\<forall>s. sg (agent ch) (agentBalance ch') (casinoBalance ch') (nonce ch') = Some s
                 \<longrightarrow> (\<exists>res. fst (slots_reveal H sg now ch agentSeed pc) = Inr res
                        \<and> sr_reelIndices res = [r0, r1, r2] \<and> sr_payout res = payout
                        \<and> sr_agentBalance res = agentBalance ch'
                        \<and> sr_casinoBalance res = casinoBalance ch'
                        \<and> sr_nonce res = nonce ch + 1 \<and> sr_signature res = s))"
proof -
  have len: "length (computeResult H (seed p) agentSeed (nonce ch)) = 32"
    using digest by (simp add: computeResult_def)
  have ch': "fst (snd (slots_reveal H sg now ch agentSeed pc)) =
     (let h = computeResult H (seed p) agentSeed (nonce ch);
          reels = [weight_bucket (uint32_be h 0 mod 100), weight_bucket (uint32_be h 4 mod 100),
                   weight_bucket (uint32_be h 8 mod 100)];
          multiplier = slots_multiplier reels;
          payoutWei = min (betWei p * multiplier) (casinoBalance ch)
      in ch\<lparr>agentBalance := agentBalance ch - betWei p + payoutWei,
             casinoBalance := casinoBalance ch + betWei p - payoutWei,
             nonce := nonce ch + 1,
             games := games ch @
               [SlotsRound (nonce ch + 1) (betWei p) reels multiplier payoutWei now]\<rparr>)"
    using slots_reveal_resolved[where pc=pc and ch=ch and p=p and sg=sg, OF pending fresh covered len] .
  have res: "\<And>s. sg (agent ch) (agentBalance (fst (snd (slots_reveal H sg now ch agentSeed pc))))
               (casinoBalance (fst (snd (slots_reveal H sg now ch agentSeed pc))))
               (nonce (fst (snd (slots_reveal H sg now ch agentSeed pc)))) = Some s
          \<Longrightarrow> \<exists>res. fst (slots_reveal H sg now ch agentSeed pc) = Inr res
                \<and> sr_reelIndices res =
                    [weight_bucket (uint32_be (computeResult H (seed p) agentSeed (nonce ch)) 0 mod 100),
                     weight_bucket (uint32_be (computeResult H (seed p) agentSeed (nonce ch)) 4 mod 100),
                     weight_bucket (uint32_be (computeResult H (seed p) agentSeed (nonce ch)) 8 mod 100)]
                \<and> sr_payout res = agentBalance (fst (snd (slots_reveal H sg now ch agentSeed pc)))
                                     - agentBalance ch + betWei p
                \<and> sr_agentBalance res = agentBalance (fst (snd (slots_reveal H sg now ch agentSeed pc)))
                \<and> sr_casinoBalance res = casinoBalance (fst (snd (slots_reveal H sg now ch agentSeed pc)))
                \<and> sr_nonce res = nonce ch + 1 \<and> sr_signature res = s"
    using pending fresh covered len
    by (simp add: slots_reveal_def Let_def readUInt32BE_uint32_be getSymbol_weight_bucket cap_min
        split: option.splits)
  show ?thesis
    unfolding Let_def
  proof (intro conjI allI impI)
    show "PAYOUTS = [5, 10, 25, 50, 290]" by (simp add: PAYOUTS_def)
  next
    fix s
    assume "sg (agent ch) (agentBalance (fst (snd (slots_reveal H sg now ch agentSeed pc))))
               (casinoBalance (fst (snd (slots_reveal H sg now ch agentSeed pc))))
               (nonce (fst (snd (slots_reveal H sg now ch agentSeed pc)))) = Some s"
    from res[OF this] show "\<exists>res. fst (slots_reveal H sg now ch agentSeed pc) = Inr res \<and>
             sr_reelIndices res =
             [weight_bucket (uint32_be (H (seed p @ '':'' @ agentSeed @ '':'' @ decimal (nonce ch))) 0 mod 100),
              weight_bucket (uint32_be (H (seed p @ '':'' @ agentSeed @ '':'' @ decimal (nonce ch))) 4 mod 100),
              weight_bucket (uint32_be (H (seed p @ '':'' @ agentSeed @ '':'' @ decimal (nonce ch))) 8 mod 100)] \<and>
             sr_payout res =
             min (if weight_bucket (uint32_be (H (seed p @ '':'' @ agentSeed @ '':'' @ decimal (nonce ch))) 0 mod 100) =
                     weight_bucket (uint32_be (H (seed p @ '':'' @ agentSeed @ '':'' @ decimal (nonce ch))) 4 mod 100) \<and>
                     weight_bucket (uint32_be (H (seed p @ '':'' @ agentSeed @ '':'' @ decimal (nonce ch))) 4 mod 100) =
                     weight_bucket (uint32_be (H (seed p @ '':'' @ agentSeed @ '':'' @ decimal (nonce ch))) 8 mod 100)
                  then betWei p * PAYOUTS ! weight_bucket (uint32_be (H (seed p @ '':'' @ agentSeed @ '':'' @ decimal (nonce ch))) 0 mod 100)
                  else 0)
              (casinoBalance ch) \<and>
             sr_agentBalance res = agentBalance (fst (snd (slots_reveal H sg now ch agentSeed pc))) \<and>
             sr_casinoBalance res = casinoBalance (fst (snd (slots_reveal H sg now ch agentSeed pc))) \<and>
             sr_nonce res = nonce ch + 1 \<and> sr_signature res = s"
      by (auto simp: ch' Let_def computeResult_def slots_multiplier_buckets)
  qed (simp_all add: ch' Let_def computeResult_def slots_multiplier_buckets)
qed

text \<open>
  The amended statement at a house of 10 ether, a bet of 1000 wei and a digest of zero
  bytes: three cherries, a payout of 5000 wei.
\<close>

theorem slots_reveal_derivation_witness:
  "ex_slots_pending (commitKey (agent ex_rich_house) Slots) =
      Some \<lparr>seed = ''c0ffee'', betWei = 1000, choice = None, game = ''slots'', timestamp = 0\<rparr>
   \<and> (1000::int) - 0 \<le> COMMIT_TIMEOUT
   \<and> (1000::int) \<le> agentBalance ex_rich_house
   \<and> length (zero_hash (''c0ffee'' @ '':'' @ ''feed'' @ '':'' @ decimal (nonce ex_rich_house))) = 32
   \<and> agentBalance (fst (snd (slots_reveal zero_hash ok_signer 1000 ex_rich_house ''feed''
         ex_slots_pending))) = 100000000000004000
   \<and> casinoBalance (fst (snd (slots_reveal zero_hash ok_signer 1000 ex_rich_house ''feed''
         ex_slots_pending))) = 9999999999999996000
   \<and> nonce (fst (snd (slots_reveal zero_hash ok_signer 1000 ex_rich_house ''feed''
         ex_slots_pending))) = 1"
proof -
  have a: "ex_slots_pending (commitKey (agent ex_rich_house) Slots) =
      Some \<lparr>seed = ''c0ffee'', betWei = 1000, choice = None, game = ''slots'', timestamp = 0\<rparr>"
    by (simp add: ex_slots_pending_def ex_rich_house_def mk_channel_def)
  have b: "(1000::int) - timestamp \<lparr>seed = ''c0ffee'', betWei = 1000, choice = None,
              game = ''slots'', timestamp = 0\<rparr> \<le> COMMIT_TIMEOUT"
    by (simp add: COMMIT_TIMEOUT_def)
  have c: "betWei \<lparr>seed = ''c0ffee'', betWei = 1000, choice = None,
              game = ''slots'', timestamp = 0\<rparr> \<le> agentBalance ex_rich_house"
    by (simp add: ex_rich_house_def mk_channel_def)
  have d: "length (zero_hash (seed \<lparr>seed = ''c0ffee'', betWei = 1000, choice = None,
              game = ''slots'', timestamp = 0\<rparr> @ '':'' @ ''feed'' @ '':'' @
              decimal (nonce ex_rich_house))) = 32"
    by (simp add: zero_hash_def)
  have z: "\<And>s k. k < 29 \<Longrightarrow> uint32_be (zero_hash s) k = 0"
    by (simp add: uint32_be_def zero_hash_def)
  from slots_reveal_derivation[where pc=ex_slots_pending and sg=ok_signer and ch=ex_rich_house
      and now=1000 and H=zero_hash and agentSeed="''feed''"
      and p="\<lparr>seed = ''c0ffee'', betWei = 1000, choice = None, game = ''slots'', timestamp = 0\<rparr>",
      OF a b c d]
  show ?thesis
    using a b c d
    by (simp add: Let_def z weight_bucket_def PAYOUTS_def min_def)
      (simp add: ex_rich_house_def mk_channel_def)
qed

text \<open>
  The statement as first written fails for a pending commit that is not expired when the
  agent's balance no longer covers the bet: the reveal is rejected by the balance check
  and the channel, its nonce included, is left as it was.
\<close>

theorem slots_reveal_uncovered_counterexample:
  "ex_slots_pending (commitKey (agent ex_drained) Slots) =
      Some \<lparr>seed = ''c0ffee'', betWei = 1000, choice = None, game = ''slots'', timestamp = 0\<rparr>
   \<and> (1000::int) - 0 \<le> COMMIT_TIMEOUT
   \<and> agentBalance ex_drained < 1000
   \<and> fst (slots_reveal zero_hash ok_signer 1000 ex_drained ''feed'' ex_slots_pending)
       = Inl InsufficientBalanceAtReveal
   \<and> fst (snd (slots_reveal zero_hash ok_signer 1000 ex_drained ''feed'' ex_slots_pending))
       = ex_drained
   \<and> nonce (fst (snd (slots_reveal zero_hash ok_signer 1000 ex_drained ''feed''
         ex_slots_pending))) \<noteq> nonce ex_drained + 1"
  by (simp add: slots_reveal_def ex_slots_pending_def ex_drained_def mk_channel_def
      COMMIT_TIMEOUT_def)

section \<open>Coinflip: the result and the payout\<close>

lemma sdiv_nonneg_eq_div:
  fixes a :: int
  assumes "0 \<le> a"
  shows "a sdiv 10 = a div 10"
proof (cases "a = 0")
  case True
  then show ?thesis by simp
next
  case False
  with assms have "0 < a" by simp
  then show ?thesis by (simp add: signed_divide_int_def)
qed

lemma coinflip_payout_floor:
  "0 \<le> bet \<Longrightarrow>
   coinflip_payout won bet house = (if won then min (bet * 19 div 10) (house + bet) else 0)"
  by (simp add: coinflip_payout_def cap_min sdiv_nonneg_eq_div)

lemma coinflip_reveal_resolved:
  assumes "pc (commitKey (agent ch) Coinflip) = Some p"
    and "now - timestamp p \<le> COMMIT_TIMEOUT"
    and "betWei p \<le> agentBalance ch"
    and "length (computeResult H (seed p) agentSeed (nonce ch)) = 32"
  shows "fst (snd (coinflip_reveal H sg now ch agentSeed pc)) =
     (let h = computeResult H (seed p) agentSeed (nonce ch);
          result = (if even (uint32_be h 0) then ''heads'' else ''tails'');
          won = (Some result = choice p);
          payoutWei = coinflip_payout won (betWei p) (casinoBalance ch)
      in ch\<lparr>agentBalance := agentBalance ch - betWei p + payoutWei,
             casinoBalance := casinoBalance ch + betWei p - payoutWei,
             nonce := nonce ch + 1,
             games := games ch @
               [CoinflipRound (nonce ch + 1) (betWei p)
                  (case choice p of None \<Rightarrow> [] | Some c \<Rightarrow> c) result won payoutWei now]\<rparr>)"
  using assms
  by (simp add: coinflip_reveal_def Let_def readUInt32BE_uint32_be even_iff_mod_2_eq_zero
      split: option.splits)

lemma coinflip_reveal_eq:
  assumes "pc (commitKey (agent ch) Coinflip) = Some p"
    and "now - timestamp p \<le> COMMIT_TIMEOUT"
    and "betWei p \<le> agentBalance ch"
    and "length (computeResult H (seed p) agentSeed (nonce ch)) = 32"
  shows "coinflip_reveal H sg now ch agentSeed pc =
     (let h = computeResult H (seed p) agentSeed (nonce ch);
          result = (if even (uint32_be h 0) then ''heads'' else ''tails'');
          won = (Some result = choice p);
          payoutWei = coinflip_payout won (betWei p) (casinoBalance ch);
          ch' = ch\<lparr>agentBalance := agentBalance ch - betWei p + payoutWei,
                   casinoBalance := casinoBalance ch + betWei p - payoutWei,
                   nonce := nonce ch + 1,
                   games := games ch @
                     [CoinflipRound (nonce ch + 1) (betWei p)
                        (case choice p of None \<Rightarrow> [] | Some c \<Rightarrow> c) result won payoutWei now]\<rparr>
      in case sg (agent ch) (agentBalance ch') (casinoBalance ch') (nonce ch') of
           None \<Rightarrow> (Inl SignerFailed, ch', pc)
         | Some sig \<Rightarrow>
             (Inr \<lparr>cr_choice = choice p, cr_result = result, cr_won = won,
                   cr_payout = payoutWei, cr_agentBalance = agentBalance ch',
                   cr_casinoBalance = casinoBalance ch', cr_nonce = nonce ch',
                   cr_signature = sig,
                   cr_proof = (seed p, agentSeed, h)\<rparr>,
              ch', pc(commitKey (agent ch) Coinflip := None)))"
  using assms
  by (simp add: coinflip_reveal_def Let_def readUInt32BE_uint32_be even_iff_mod_2_eq_zero
      split del: if_split cong: option.case_cong)

lemma coinflip_reveal_result:
  assumes "pc (commitKey (agent ch) Coinflip) = Some p"
    and "now - timestamp p \<le> COMMIT_TIMEOUT"
    and "betWei p \<le> agentBalance ch"
    and "length (computeResult H (seed p) agentSeed (nonce ch)) = 32"
    and "sg (agent ch) (agentBalance (fst (snd (coinflip_reveal H sg now ch agentSeed pc))))
           (casinoBalance (fst (snd (coinflip_reveal H sg now ch agentSeed pc))))
           (nonce ch + 1) = Some s"
  shows "\<exists>res. fst (coinflip_reveal H sg now ch agentSeed pc) = Inr res
           \<and> cr_result res =
               (if even (uint32_be (computeResult H (seed p) agentSeed (nonce ch)) 0)
                then ''heads'' else ''tails'')
           \<and> cr_won res = (Some (cr_result res) = choice p)
           \<and> cr_payout res = coinflip_payout (cr_won res) (betWei p) (casinoBalance ch)
           \<and> cr_nonce res = nonce ch + 1 \<and> cr_signature res = s"
proof -
  note eq = coinflip_reveal_eq[where pc=pc and ch=ch and p=p and sg=sg, OF assms(1-4)]
  note ch' = coinflip_reveal_resolved[where pc=pc and ch=ch and p=p and sg=sg, OF assms(1-4)]
  have sig: "sg (agent ch)
       (agentBalance ch - betWei p + coinflip_payout
          (Some (if even (uint32_be (computeResult H (seed p) agentSeed (nonce ch)) 0)
                 then ''heads'' else ''tails'') = choice p) (betWei p) (casinoBalance ch))
       (casinoBalance ch + betWei p - coinflip_payout
          (Some (if even (uint32_be (computeResult H (seed p) agentSeed (nonce ch)) 0)
                 then ''heads'' else ''tails'') = choice p) (betWei p) (casinoBalance ch))
       (nonce ch + 1) = Some s"
    using assms(5) unfolding ch' Let_def by simp
  show ?thesis
    unfolding eq Let_def using sig by (simp split del: if_split)
qed

text \<open>
  C7. For a coinflip round that is revealed (a pending commit that has not expired, with
  the positive bet that \<open>validateBet\<close> let through at commit and that the agent's balance
  still covers): the result is heads exactly when the big-endian 32-bit integer at offset
  0 of the digest is even; a win pays \<open>floor(bet * 19 / 10)\<close> capped at
  \<open>houseBalance + bet\<close>, a loss pays 0; the sum of the two balances is unchanged; and a
  winning bet of 1 wei against a house that is not in debt pays exactly 1 wei.
\<close>

theorem coinflip_payout_arithmetic:
  assumes pending: "pc (commitKey (agent ch) Coinflip) = Some p"
    and fresh: "now - timestamp p \<le> COMMIT_TIMEOUT"
    and covered: "betWei p \<le> agentBalance ch"
    and bet: "0 < betWei p"
    and digest: "length (H (seed p @ '':'' @ agentSeed @ '':'' @ decimal (nonce ch))) = 32"
  shows "let h = H (seed p @ '':'' @ agentSeed @ '':'' @ decimal (nonce ch));
             result = (if even (uint32_be h 0) then ''heads'' else ''tails'');
             won = (choice p = Some result);
             payout = (if won then min (betWei p * 19 div 10) (casinoBalance ch + betWei p)
                       else 0);
             ch' = fst (snd (coinflip_reveal H sg now ch agentSeed pc))
         in games ch' = games ch @
                 [CoinflipRound (nonce ch + 1) (betWei p)
                    (case choice p of None \<Rightarrow> [] | Some c \<Rightarrow> c) result won payout now]
            \<and> agentBalance ch' = agentBalance ch - betWei p + payout
            \<and> casinoBalance ch' = casinoBalance ch + betWei p - payout
            \<and> nonce ch' = nonce ch + 1
            \<and> agentBalance ch' + casinoBalance ch' = agentBalance ch + casinoBalance ch
            \<and> (conserved ch \<longrightarrow> conserved ch')
            \<and> (won \<and> betWei p = 1 \<and> 0 \<le> casinoBalance ch \<longrightarrow> payout = 1)
            \<and> (\<forall>s. sg (agent ch) (agentBalance ch') (casinoBalance ch') (nonce ch + 1) = Some s
                 \<longrightarrow> (\<exists>res. fst (coinflip_reveal H sg now ch agentSeed pc) = Inr res
                        \<and> cr_result res = result \<and> cr_won res = won
                        \<and> cr_payout res = payout \<and> cr_signature res = s))"
proof -
  have len: "length (computeResult H (seed p) agentSeed (nonce ch)) = 32"
    using digest by (simp add: computeResult_def)
  have bet0: "0 \<le> betWei p" using bet by simp
  note ch' = coinflip_reveal_resolved[where pc=pc and ch=ch and p=p and sg=sg,
      OF pending fresh covered len]
  note res = coinflip_reveal_result[where pc=pc and ch=ch and p=p and sg=sg,
      OF pending fresh covered len]
  have eq: "(Some x = choice p) = (choice p = Some x)" for x by auto
  show ?thesis
    unfolding Let_def
  proof (intro conjI allI impI)
    fix s
    assume "sg (agent ch) (agentBalance (fst (snd (coinflip_reveal H sg now ch agentSeed pc))))
           (casinoBalance (fst (snd (coinflip_reveal H sg now ch agentSeed pc))))
           (nonce ch + 1) = Some s"
    from res[OF this] obtain res where
      r: "fst (coinflip_reveal H sg now ch agentSeed pc) = Inr res"
         "cr_result res =
               (if even (uint32_be (computeResult H (seed p) agentSeed (nonce ch)) 0)
                then ''heads'' else ''tails'')"
         "cr_won res = (Some (cr_result res) = choice p)"
         "cr_payout res = coinflip_payout (cr_won res) (betWei p) (casinoBalance ch)"
         "cr_signature res = s"
      by blast
    show "\<exists>res. fst (coinflip_reveal H sg now ch agentSeed pc) = Inr res \<and>
             cr_result res =
             (if even (uint32_be (H (seed p @ '':'' @ agentSeed @ '':'' @ decimal (nonce ch))) 0)
              then ''heads'' else ''tails'') \<and>
             cr_won res =
             (choice p =
              Some (if even (uint32_be (H (seed p @ '':'' @ agentSeed @ '':'' @ decimal (nonce ch))) 0)
                    then ''heads'' else ''tails'')) \<and>
             cr_payout res =
             (if choice p =
                 Some (if even (uint32_be (H (seed p @ '':'' @ agentSeed @ '':'' @ decimal (nonce ch))) 0)
                       then ''heads'' else ''tails'')
              then min (betWei p * 19 div 10) (casinoBalance ch + betWei p) else 0) \<and>
             cr_signature res = s"
      using r bet0 by (auto simp: computeResult_def coinflip_payout_floor eq)
  next
    assume "(choice p =
         Some (if even (uint32_be (H (seed p @ '':'' @ agentSeed @ '':'' @ decimal (nonce ch))) 0)
               then ''heads'' else ''tails'')) \<and> betWei p = 1 \<and> 0 \<le> casinoBalance ch"
    then show "(if choice p =
            Some (if even (uint32_be (H (seed p @ '':'' @ agentSeed @ '':'' @ decimal (nonce ch))) 0)
                  then ''heads'' else ''tails'')
         then min (betWei p * 19 div 10) (casinoBalance ch + betWei p) else 0) = 1"
      by simp
  next
    assume "conserved ch"
    then show "conserved (fst (snd (coinflip_reveal H sg now ch agentSeed pc)))"
      by (simp add: ch' Let_def conserved_def)
  qed (simp_all add: ch' Let_def computeResult_def coinflip_payout_floor[OF bet0] eq)
qed

text \<open>
  The statement at a bet of 1 wei on heads and a digest of zero bytes: heads, the agent
  wins and is paid the 1 wei back.
\<close>

theorem coinflip_payout_arithmetic_witness:
  "ex_coinflip_pending (commitKey (agent ex_rich_house) Coinflip) =
      Some \<lparr>seed = ''c0ffee'', betWei = 1, choice = Some ''heads'', game = ''coinflip'',
            timestamp = 0\<rparr>
   \<and> (1000::int) - 0 \<le> COMMIT_TIMEOUT
   \<and> (1::int) \<le> agentBalance ex_rich_house
   \<and> length (zero_hash (''c0ffee'' @ '':'' @ ''feed'' @ '':'' @ decimal (nonce ex_rich_house))) = 32
   \<and> even (uint32_be (zero_hash (''c0ffee'' @ '':'' @ ''feed'' @ '':'' @
        decimal (nonce ex_rich_house))) 0)
   \<and> agentBalance (fst (snd (coinflip_reveal zero_hash ok_signer 1000 ex_rich_house ''feed''
         ex_coinflip_pending))) = agentBalance ex_rich_house - 1 + 1
   \<and> casinoBalance (fst (snd (coinflip_reveal zero_hash ok_signer 1000 ex_rich_house ''feed''
         ex_coinflip_pending))) = casinoBalance ex_rich_house + 1 - 1
   \<and> conserved (fst (snd (coinflip_reveal zero_hash ok_signer 1000 ex_rich_house ''feed''
         ex_coinflip_pending)))"
proof -
  have a: "ex_coinflip_pending (commitKey (agent ex_rich_house) Coinflip) =
      Some \<lparr>seed = ''c0ffee'', betWei = 1, choice = Some ''heads'', game = ''coinflip'',
            timestamp = 0\<rparr>"
    by (simp add: ex_coinflip_pending_def ex_rich_house_def mk_channel_def)
  have b: "(1000::int) - timestamp \<lparr>seed = ''c0ffee'', betWei = 1, choice = Some ''heads'',
              game = ''coinflip'', timestamp = 0\<rparr> \<le> COMMIT_TIMEOUT"
    by (simp add: COMMIT_TIMEOUT_def)
  have c: "betWei \<lparr>seed = ''c0ffee'', betWei = 1, choice = Some ''heads'',
              game = ''coinflip'', timestamp = 0\<rparr> \<le> agentBalance ex_rich_house"
    by (simp add: ex_rich_house_def mk_channel_def)
  have c': "0 < betWei \<lparr>seed = ''c0ffee'', betWei = 1, choice = Some ''heads'',
              game = ''coinflip'', timestamp = 0\<rparr>"
    by simp
  have d: "length (zero_hash (seed \<lparr>seed = ''c0ffee'', betWei = 1, choice = Some ''heads'',
              game = ''coinflip'', timestamp = 0\<rparr> @ '':'' @ ''feed'' @ '':'' @
              decimal (nonce ex_rich_house))) = 32"
    by (simp add: zero_hash_def)
  have z: "\<And>s k. k < 29 \<Longrightarrow> uint32_be (zero_hash s) k = 0"
    by (simp add: uint32_be_def zero_hash_def)
  have cons: "conserved ex_rich_house"
    by (simp add: conserved_def ex_rich_house_def mk_channel_def)
  have house: "0 \<le> casinoBalance ex_rich_house"
    by (simp add: ex_rich_house_def mk_channel_def)
  from coinflip_payout_arithmetic[where pc=ex_coinflip_pending and sg=ok_signer
      and ch=ex_rich_house and now=1000 and H=zero_hash and agentSeed="''feed''"
      and p="\<lparr>seed = ''c0ffee'', betWei = 1, choice = Some ''heads'', game = ''coinflip'',
              timestamp = 0\<rparr>",
      OF a b c c' d]
  show ?thesis
    using a b c d cons house
    by (simp add: Let_def z)
qed

section \<open>Pending commits\<close>

lemma last_commitKey:
  "last (commitKey a g) = (case g of Slots \<Rightarrow> CHR ''s'' | Coinflip \<Rightarrow> CHR ''p'' | Lotto \<Rightarrow> CHR ''o'')"
  by (cases g) (simp_all add: commitKey_def)

lemma commitKey_inject: "commitKey a g = commitKey a' g' \<longleftrightarrow> a = a' \<and> g = g'"
proof
  assume eq: "commitKey a g = commitKey a' g'"
  then have "last (commitKey a g) = last (commitKey a' g')" by simp
  then have g: "g = g'"
    by (cases g; cases g') (simp_all add: last_commitKey)
  with eq show "a = a' \<and> g = g'" by (simp add: commitKey_def)
qed simp

lemma slots_commit_pending:
  "pc (commitKey (agent ch) Slots) \<noteq> None \<Longrightarrow>
   \<exists>e. slots_commit H rnd now ch bet pc = (Inl e, pc)"
  by (auto simp: slots_commit_def split: option.splits)

lemma coinflip_commit_pending:
  "pc (commitKey (agent ch) Coinflip) \<noteq> None \<Longrightarrow>
   \<exists>e. coinflip_commit H rnd now ch c bet pc = (Inl e, pc)"
  by (auto simp: coinflip_commit_def split: option.splits)

lemma slots_commit_free:
  "pc (commitKey (agent ch) Slots) = None \<Longrightarrow> validateBet Slots ch bet 2 = None \<Longrightarrow>
   slots_commit H rnd now ch bet pc =
     (Inr (H rnd, bet),
      pc(commitKey (agent ch) Slots \<mapsto>
           \<lparr>seed = rnd, betWei = bet, choice = None, game = ''slots'', timestamp = now\<rparr>))"
  by (simp add: slots_commit_def commit_def)

lemma coinflip_commit_free:
  "pc (commitKey (agent ch) Coinflip) = None \<Longrightarrow> c = ''heads'' \<or> c = ''tails'' \<Longrightarrow>
   validateBet Coinflip ch bet 2 = None \<Longrightarrow>
   coinflip_commit H rnd now ch c bet pc =
     (Inr (H rnd, bet, c),
      pc(commitKey (agent ch) Coinflip \<mapsto>
           \<lparr>seed = rnd, betWei = bet, choice = Some c, game = ''coinflip'', timestamp = now\<rparr>))"
  by (auto simp: coinflip_commit_def commit_def)

lemma slots_commit_Inr:
  "slots_commit H rnd now ch bet pc = (Inr r, pc') \<Longrightarrow>
   pc (commitKey (agent ch) Slots) = None \<and> 0 < bet
   \<and> pc' = pc(commitKey (agent ch) Slots \<mapsto>
           \<lparr>seed = rnd, betWei = bet, choice = None, game = ''slots'', timestamp = now\<rparr>)"
  by (auto simp: slots_commit_def commit_def validateBet_def Let_def split: option.splits if_splits)

lemma coinflip_commit_Inr:
  "coinflip_commit H rnd now ch c bet pc = (Inr r, pc') \<Longrightarrow>
   pc (commitKey (agent ch) Coinflip) = None \<and> 0 < bet
   \<and> pc' = pc(commitKey (agent ch) Coinflip \<mapsto>
           \<lparr>seed = rnd, betWei = bet, choice = Some c, game = ''coinflip'', timestamp = now\<rparr>)"
  by (auto simp: coinflip_commit_def commit_def validateBet_def Let_def split: option.splits if_splits)

lemma slots_commit_Inl:
  "slots_commit H rnd now ch bet pc = (Inl e, pc') \<Longrightarrow> pc' = pc"
  by (auto simp: slots_commit_def commit_def split: option.splits if_splits)

lemma coinflip_commit_Inl:
  "coinflip_commit H rnd now ch c bet pc = (Inl e, pc') \<Longrightarrow> pc' = pc"
  by (auto simp: coinflip_commit_def commit_def split: option.splits if_splits)

text \<open>
  C9. The pending-commit store is a map keyed by \<open>agent:game\<close>, and the key determines
  the agent and the game, so it holds at most one commit per agent and game. A commit
  attempted while one is pending for the same agent and game fails and leaves the store as
  it was (a commit changes nothing else); a commit never replaces a stored one; and a
  valid commit to the other game succeeds and leaves the pending one in place.
\<close>

theorem single_pending_commit:
  "(commitKey a g = commitKey a' g' \<longleftrightarrow> a = a' \<and> g = g')
   \<and> (pc (commitKey (agent ch) Slots) \<noteq> None
        \<longrightarrow> (\<exists>e. slots_commit H rnd now ch bet pc = (Inl e, pc)))
   \<and> (pc (commitKey (agent ch) Coinflip) \<noteq> None
        \<longrightarrow> (\<exists>e. coinflip_commit H rnd now ch c bet pc = (Inl e, pc)))
   \<and> (pc (commitKey (agent ch) Coinflip) = None \<and> (c = ''heads'' \<or> c = ''tails'')
        \<and> validateBet Coinflip ch bet 2 = None
        \<longrightarrow> coinflip_commit H rnd now ch c bet pc =
              (Inr (H rnd, bet, c),
               pc(commitKey (agent ch) Coinflip \<mapsto>
                    \<lparr>seed = rnd, betWei = bet, choice = Some c, game = ''coinflip'',
                     timestamp = now\<rparr>))
            \<and> snd (coinflip_commit H rnd now ch c bet pc) (commitKey (agent ch) Slots)
                = pc (commitKey (agent ch) Slots))
   \<and> (pc (commitKey (agent ch) Slots) = None \<and> validateBet Slots ch bet 2 = None
        \<longrightarrow> slots_commit H rnd now ch bet pc =
              (Inr (H rnd, bet),
               pc(commitKey (agent ch) Slots \<mapsto>
                    \<lparr>seed = rnd, betWei = bet, choice = None, game = ''slots'',
                     timestamp = now\<rparr>))
            \<and> snd (slots_commit H rnd now ch bet pc) (commitKey (agent ch) Coinflip)
                = pc (commitKey (agent ch) Coinflip))
   \<and> (\<forall>r. fst (slots_commit H rnd now ch bet pc) = Inr r
        \<longrightarrow> pc (commitKey (agent ch) Slots) = None)
   \<and> (\<forall>r. fst (coinflip_commit H rnd now ch c bet pc) = Inr r
        \<longrightarrow> pc (commitKey (agent ch) Coinflip) = None)"
proof (intro conjI impI allI)
  show "commitKey a g = commitKey a' g' \<longleftrightarrow> a = a' \<and> g = g'"
    by (rule commitKey_inject)
next
  assume "pc (commitKey (agent ch) Slots) \<noteq> None"
  then show "\<exists>e. slots_commit H rnd now ch bet pc = (Inl e, pc)"
    by (rule slots_commit_pending)
next
  assume "pc (commitKey (agent ch) Coinflip) \<noteq> None"
  then show "\<exists>e. coinflip_commit H rnd now ch c bet pc = (Inl e, pc)"
    by (rule coinflip_commit_pending)
next
  assume h: "pc (commitKey (agent ch) Coinflip) = None \<and> (c = ''heads'' \<or> c = ''tails'')
        \<and> validateBet Coinflip ch bet 2 = None"
  then show eq: "coinflip_commit H rnd now ch c bet pc =
              (Inr (H rnd, bet, c),
               pc(commitKey (agent ch) Coinflip \<mapsto>
                    \<lparr>seed = rnd, betWei = bet, choice = Some c, game = ''coinflip'',
                     timestamp = now\<rparr>))"
    by (simp add: coinflip_commit_free)
  show "snd (coinflip_commit H rnd now ch c bet pc) (commitKey (agent ch) Slots)
                = pc (commitKey (agent ch) Slots)"
    by (simp add: eq commitKey_inject)
next
  assume h: "pc (commitKey (agent ch) Slots) = None \<and> validateBet Slots ch bet 2 = None"
  then show eq: "slots_commit H rnd now ch bet pc =
              (Inr (H rnd, bet),
               pc(commitKey (agent ch) Slots \<mapsto>
                    \<lparr>seed = rnd, betWei = bet, choice = None, game = ''slots'',
                     timestamp = now\<rparr>))"
    by (simp add: slots_commit_free)
  show "snd (slots_commit H rnd now ch bet pc) (commitKey (agent ch) Coinflip)
                = pc (commitKey (agent ch) Coinflip)"
    by (simp add: eq commitKey_inject)
next
  fix r assume "fst (slots_commit H rnd now ch bet pc) = Inr r"
  then show "pc (commitKey (agent ch) Slots) = None"
    using slots_commit_Inr[of H rnd now ch bet pc r "snd (slots_commit H rnd now ch bet pc)"]
    by (metis prod.collapse)
next
  fix r assume "fst (coinflip_commit H rnd now ch c bet pc) = Inr r"
  then show "pc (commitKey (agent ch) Coinflip) = None"
    using coinflip_commit_Inr[of H rnd now ch c bet pc r "snd (coinflip_commit H rnd now ch c bet pc)"]
    by (metis prod.collapse)
qed

text \<open>
  The statement at the example agent with a pending slots commit: a second slots commit is
  rejected and the store is unchanged, a coinflip commit is accepted and the slots commit
  stays.
\<close>

theorem single_pending_commit_witness:
  "ex_slots_pending (commitKey (agent ex_rich_house) Slots) \<noteq> None
   \<and> slots_commit zero_hash ''5eed'' 2000 ex_rich_house 1000 ex_slots_pending
       = (Inl AlreadyPending, ex_slots_pending)
   \<and> ex_slots_pending (commitKey (agent ex_rich_house) Coinflip) = None
   \<and> validateBet Coinflip ex_rich_house 1000 2 = None
   \<and> fst (coinflip_commit zero_hash ''5eed'' 2000 ex_rich_house ''heads'' 1000 ex_slots_pending)
       = Inr (zero_hash ''5eed'', 1000, ''heads'')
   \<and> snd (coinflip_commit zero_hash ''5eed'' 2000 ex_rich_house ''heads'' 1000 ex_slots_pending)
        (commitKey (agent ex_rich_house) Slots)
       = ex_slots_pending (commitKey (agent ex_rich_house) Slots)"
proof -
  have a: "ex_slots_pending (commitKey (agent ex_rich_house) Slots) \<noteq> None"
    by (simp add: ex_slots_pending_def ex_rich_house_def mk_channel_def)
  have b: "ex_slots_pending (commitKey (agent ex_rich_house) Coinflip) = None"
    by (simp add: ex_slots_pending_def ex_rich_house_def mk_channel_def commitKey_inject)
  have v: "validateBet Coinflip ex_rich_house 1000 2 = None"
    by (simp add: validateBet_def ex_rich_house_def mk_channel_def)
  have v': "validateBet Slots ex_rich_house 1000 2 = None"
    by (simp add: validateBet_def ex_rich_house_def mk_channel_def)
  have e: "slots_commit zero_hash ''5eed'' 2000 ex_rich_house 1000 ex_slots_pending
       = (Inl AlreadyPending, ex_slots_pending)"
    using a v' by (simp add: slots_commit_def)
  from single_pending_commit[where pc=ex_slots_pending and ch=ex_rich_house and bet=1000
      and c="''heads''" and H=zero_hash and rnd="''5eed''" and now=2000]
  show ?thesis using a b v e by simp
qed

section \<open>Lotto: claims\<close>

lemma lotto_claim_nothing:
  "unclaimed_of L (agent ch) = 0 \<Longrightarrow>
   lotto_claim sg ch L = (Inr (NothingToClaim ''0'' ''No unclaimed winnings''), ch, L)"
  by (simp add: lotto_claim_def)

lemma lotto_claim_eq:
  assumes "unclaimed_of L (agent ch) \<noteq> 0"
  shows "lotto_claim sg ch L =
     (let u = unclaimed_of L (agent ch);
          x = min u (casinoBalance ch);
          ch' = ch\<lparr>agentBalance := agentBalance ch + x,
                   casinoBalance := casinoBalance ch - x,
                   nonce := nonce ch + 1\<rparr>;
          L' = L\<lparr>unclaimedWinnings :=
                   (if u - x > 0 then (unclaimedWinnings L)(agent ch \<mapsto> u - x)
                    else (unclaimedWinnings L)(agent ch := None))\<rparr>
      in case sg (agent ch) (agentBalance ch + x) (casinoBalance ch - x) (nonce ch + 1) of
           None \<Rightarrow> (Inl SignerFailed, ch', L')
         | Some sig \<Rightarrow>
             (Inr (Claimed x (u - x) (agentBalance ch + x) (casinoBalance ch - x)
                     (nonce ch + 1) sig), ch', L'))"
proof -
  have m: "(if u > h then h else u) = min u h" for u h :: int
    by (simp add: min_def)
  show ?thesis
    using assms
    by (simp add: lotto_claim_def Let_def m split del: if_split cong: option.case_cong)
qed

lemma unclaimed_of_remaining:
  "0 \<le> r \<Longrightarrow>
   unclaimed_of (L\<lparr>unclaimedWinnings :=
       (if r > 0 then (unclaimedWinnings L)(a \<mapsto> r) else (unclaimedWinnings L)(a := None))\<rparr>) a
     = r"
  by (simp add: unclaimed_of_def)

text \<open>
  C10. For a channel whose agent has no unclaimed lotto winnings, the claim action returns
  \<open>claimed = "0"\<close>, leaves the channel (balances, nonce, games list) and the plug-in's
  state exactly as they were, and produces no signed state: the signer is not asked, so the
  answer is the same whatever the signer would do. Routed through the engine, the whole
  engine state is unchanged. A claim of a non-zero amount, in contrast, increments the
  nonce.
\<close>

theorem lotto_claim_without_winnings:
  "(unclaimed_of L (agent ch) = 0 \<longrightarrow>
      lotto_claim sg ch L = (Inr (NothingToClaim ''0'' ''No unclaimed winnings''), ch, L))
   \<and> (unclaimed_of L (agent ch) = 0 \<and> channels E a = Some ch \<and> lotto E = L \<and> e_sign ev = sg
        \<longrightarrow> handleGameAction H ev E a LottoClaim =
              (Inr (LottoClaimed (NothingToClaim ''0'' ''No unclaimed winnings'')), E))
   \<and> (unclaimed_of L (agent ch) \<noteq> 0 \<longrightarrow>
        nonce (fst (snd (lotto_claim sg ch L))) = nonce ch + 1)"
proof (intro conjI impI)
  assume "unclaimed_of L (agent ch) = 0"
  then show "lotto_claim sg ch L = (Inr (NothingToClaim ''0'' ''No unclaimed winnings''), ch, L)"
    by (rule lotto_claim_nothing)
next
  assume h: "unclaimed_of L (agent ch) = 0 \<and> channels E a = Some ch \<and> lotto E = L \<and> e_sign ev = sg"
  then have "(channels E)(a \<mapsto> ch) = channels E" by (auto simp: fun_upd_idem_iff)
  with h show "handleGameAction H ev E a LottoClaim =
              (Inr (LottoClaimed (NothingToClaim ''0'' ''No unclaimed winnings'')), E)"
    by (auto simp: handleGameAction_def lotto_claim_nothing)
next
  assume "unclaimed_of L (agent ch) \<noteq> 0"
  then show "nonce (fst (snd (lotto_claim sg ch L))) = nonce ch + 1"
    by (simp add: lotto_claim_eq Let_def split: option.splits)
qed

text \<open>
  The statement at the example channel and a freshly constructed lotto plug-in, with a
  signer that would throw.
\<close>

theorem lotto_claim_without_winnings_witness:
  "unclaimed_of ex_lotto (agent ex_rich_house) = 0
   \<and> lotto_claim failing_signer ex_rich_house ex_lotto
       = (Inr (NothingToClaim ''0'' ''No unclaimed winnings''), ex_rich_house, ex_lotto)"
proof -
  have u: "unclaimed_of ex_lotto (agent ex_rich_house) = 0"
    by (simp add: ex_lotto_def lotto_init_def startNewDraw_def commit_def unclaimed_of_def)
  from lotto_claim_without_winnings[of ex_lotto ex_rich_house failing_signer]
  show ?thesis using u by simp
qed

section \<open>Lotto: draws and the life of the winnings\<close>

lemma credit_winners_unclaimed:
  "distinct (map fst tk) \<Longrightarrow>
   (case snd (credit_winners w tk U) a of None \<Rightarrow> 0 | Some v \<Rightarrow> v) =
   (case U a of None \<Rightarrow> 0 | Some v \<Rightarrow> v)
     + TICKET_PRICE * PAYOUT_MULTIPLIER *
       int (length (filter (\<lambda>t. t = int w) (case map_of tk a of None \<Rightarrow> [] | Some ts \<Rightarrow> ts)))"
proof (induction tk arbitrary: U)
  case Nil
  then show ?case by simp
next
  case (Cons x tk)
  obtain b ts where x: "x = (b, ts)" by (cases x)
  from Cons.prems x have d: "distinct (map fst tk)" and nb: "b \<notin> fst ` set tk" by auto
  define m where "m = length (filter (\<lambda>t. t = int w) ts)"
  define U1 where "U1 = U(b \<mapsto> (case U b of None \<Rightarrow> 0 | Some v \<Rightarrow> v) +
          TICKET_PRICE * PAYOUT_MULTIPLIER * int m)"
  have step: "snd (credit_winners w (x # tk) U) =
      (if m > 0 then snd (credit_winners w tk U1) else snd (credit_winners w tk U))"
    by (simp add: x m_def U1_def Let_def case_prod_beta)
  note ih1 = Cons.IH[OF d, of U1]
  note ih0 = Cons.IH[OF d, of U]
  show ?case
  proof (cases "b = a")
    case True
    with nb have none: "map_of tk a = None" by (simp add: map_of_eq_None_iff)
    have U1a: "(case U1 a of None \<Rightarrow> 0 | Some v \<Rightarrow> v) =
        (case U a of None \<Rightarrow> 0 | Some v \<Rightarrow> v) + TICKET_PRICE * PAYOUT_MULTIPLIER * int m"
      by (simp add: U1_def True)
    have tks: "(case map_of (x # tk) a of None \<Rightarrow> [] | Some ts \<Rightarrow> ts) = ts"
      by (simp add: x True)
    show ?thesis
    proof (cases "m > 0")
      case True
      then show ?thesis
        unfolding step tks using ih1 by (simp add: none U1a m_def)
    next
      case False
      then show ?thesis
        unfolding step tks using ih0 by (simp add: none m_def)
    qed
  next
    case False
    have U1a: "U1 a = U a" using False by (auto simp: U1_def)
    have tks: "map_of (x # tk) a = map_of tk a"
      using False by (auto simp: x)
    show ?thesis
    proof (cases "m > 0")
      case True
      then show ?thesis
        unfolding step tks using ih1 by (simp add: U1a)
    next
      case False
      then show ?thesis
        unfolding step tks using ih0 by simp
    qed
  qed
qed

lemma unclaimed_of_startNewDraw [simp]:
  "unclaimed_of (startNewDraw H rnd now L) a = unclaimed_of L a"
  by (simp add: startNewDraw_def commit_def unclaimed_of_def)

lemma executeDraw_eq:
  assumes "map_of (draws L) did = Some d" and "\<not> drawn d"
    and "length (computeResult H (casinoSeed d)
           (decimal (length (tickets d)) @ '':'' @ decimal_int (totalPool d)) did) = 32"
  shows "executeDraw H rnd now L did =
     (let w = uint32_be (computeResult H (casinoSeed d)
                (decimal (length (tickets d)) @ '':'' @ decimal_int (totalPool d)) did) 0
              mod RANGE + 1
      in (Inr \<lparr>dr_drawId = did, dr_winningNumber = w, dr_casinoSeed = casinoSeed d,
               dr_commitment = commitment d,
               dr_winners = fst (credit_winners w (tickets d) (unclaimedWinnings L)),
               dr_totalPool = totalPool d,
               dr_totalTickets = length (concat (map snd (tickets d)))\<rparr>,
          startNewDraw H rnd now
            (L\<lparr>draws := AList.update did
                   (d\<lparr>winningNumber := Some w, drawn := True, drawnAt := Some now\<rparr>) (draws L),
               unclaimedWinnings := snd (credit_winners w (tickets d) (unclaimedWinnings L))\<rparr>)))"
  using assms
  by (simp add: executeDraw_def Let_def readUInt32BE_uint32_be split: prod.splits)

text \<open>
  C8. \<open>executeDraw\<close> on an open draw succeeds and credits every agent's unclaimed
  winnings by \<open>ticketPrice * 85\<close> times the number of the agent's tickets that match the
  winning number (nothing for an agent without a match), so that a winner has a positive
  unclaimed amount; it works on the plug-in's state only and is handed no channel. A later claim of a non-zero unclaimed amount, in whatever
  channel the agent then has open, moves exactly \<open>min(unclaimed, houseBalance)\<close> from the
  house to the agent, leaves the remainder unclaimed, increments the nonce by exactly 1,
  and returns the state signed by the signer. The tickets are a Map, so their keys are
  distinct; the digest has the 32 bytes of SHA-256.
\<close>

theorem lotto_winnings_lifecycle:
  "(map_of (draws L) did = Some d \<and> \<not> drawn d \<and> distinct (map fst (tickets d))
      \<and> length (H (casinoSeed d @ '':'' @
            (decimal (length (tickets d)) @ '':'' @ decimal_int (totalPool d)) @ '':'' @
            decimal did)) = 32
    \<longrightarrow> (\<exists>res L'. executeDraw H rnd now L did = (Inr res, L')
          \<and> dr_winningNumber res =
              uint32_be (H (casinoSeed d @ '':'' @
                (decimal (length (tickets d)) @ '':'' @ decimal_int (totalPool d)) @ '':'' @
                decimal did)) 0 mod 100 + 1
          \<and> (\<forall>a. unclaimed_of L' a =
                 unclaimed_of L a
                   + TICKET_PRICE * 85 * int (matching (dr_winningNumber res) d a))
          \<and> (\<forall>a. 0 \<le> unclaimed_of L a \<and> 0 < matching (dr_winningNumber res) d a
                 \<longrightarrow> 0 < unclaimed_of L' a)))
   \<and> (unclaimed_of Lc (agent ch) \<noteq> 0
    \<longrightarrow> (let u = unclaimed_of Lc (agent ch);
              x = min u (casinoBalance ch);
              ch' = fst (snd (lotto_claim sg ch Lc));
              L' = snd (snd (lotto_claim sg ch Lc))
          in agentBalance ch' = agentBalance ch + x
             \<and> casinoBalance ch' = casinoBalance ch - x
             \<and> nonce ch' = nonce ch + 1
             \<and> unclaimed_of L' (agent ch) = u - x
             \<and> (\<forall>s. sg (agent ch) (agentBalance ch + x) (casinoBalance ch - x) (nonce ch + 1)
                      = Some s
                  \<longrightarrow> fst (lotto_claim sg ch Lc) =
                        Inr (Claimed x (u - x) (agentBalance ch + x) (casinoBalance ch - x)
                               (nonce ch + 1) s))))"
proof (intro conjI impI)
  assume h: "map_of (draws L) did = Some d \<and> \<not> drawn d \<and> distinct (map fst (tickets d))
      \<and> length (H (casinoSeed d @ '':'' @
            (decimal (length (tickets d)) @ '':'' @ decimal_int (totalPool d)) @ '':'' @
            decimal did)) = 32"
  then have len: "length (computeResult H (casinoSeed d)
           (decimal (length (tickets d)) @ '':'' @ decimal_int (totalPool d)) did) = 32"
    by (simp add: computeResult_def)
  from h have dist: "distinct (map fst (tickets d))" by simp
  note eq = executeDraw_eq[where L=L and d=d and H=H and rnd=rnd and now=now, OF _ _ len]
  show "\<exists>res L'. executeDraw H rnd now L did = (Inr res, L')
          \<and> dr_winningNumber res =
              uint32_be (H (casinoSeed d @ '':'' @
                (decimal (length (tickets d)) @ '':'' @ decimal_int (totalPool d)) @ '':'' @
                decimal did)) 0 mod 100 + 1
          \<and> (\<forall>a. unclaimed_of L' a =
                 unclaimed_of L a
                   + TICKET_PRICE * 85 * int (matching (dr_winningNumber res) d a))
          \<and> (\<forall>a. 0 \<le> unclaimed_of L a \<and> 0 < matching (dr_winningNumber res) d a
                 \<longrightarrow> 0 < unclaimed_of L' a)"
  proof -
    have "\<exists>res L'. executeDraw H rnd now L did = (Inr res, L')
          \<and> dr_winningNumber res =
              uint32_be (H (casinoSeed d @ '':'' @
                (decimal (length (tickets d)) @ '':'' @ decimal_int (totalPool d)) @ '':'' @
                decimal did)) 0 mod 100 + 1
          \<and> (\<forall>a. unclaimed_of L' a =
                 unclaimed_of L a
                   + TICKET_PRICE * 85 * int (matching (dr_winningNumber res) d a))"
      using h credit_winners_unclaimed[OF dist, where U="unclaimedWinnings L"]
      by (simp add: eq Let_def computeResult_def RANGE_def matching_def unclaimed_of_def
          PAYOUT_MULTIPLIER_def startNewDraw_def commit_def)
    then obtain res L' where
      r: "executeDraw H rnd now L did = (Inr res, L')"
         "dr_winningNumber res =
              uint32_be (H (casinoSeed d @ '':'' @
                (decimal (length (tickets d)) @ '':'' @ decimal_int (totalPool d)) @ '':'' @
                decimal did)) 0 mod 100 + 1"
         "\<forall>a. unclaimed_of L' a =
                 unclaimed_of L a
                   + TICKET_PRICE * 85 * int (matching (dr_winningNumber res) d a)"
      by blast
    have "0 < unclaimed_of L' a"
      if "0 \<le> unclaimed_of L a \<and> 0 < matching (dr_winningNumber res) d a" for a
    proof -
      from that have "0 < TICKET_PRICE * 85 * int (matching (dr_winningNumber res) d a)"
        by (simp add: TICKET_PRICE_def)
      with that r(3) show ?thesis by simp
    qed
    with r show ?thesis by blast
  qed
next
  assume nz: "unclaimed_of Lc (agent ch) \<noteq> 0"
  have r: "0 \<le> u - min u h" for u h :: int by simp
  show "let u = unclaimed_of Lc (agent ch);
              x = min u (casinoBalance ch);
              ch' = fst (snd (lotto_claim sg ch Lc));
              L' = snd (snd (lotto_claim sg ch Lc))
          in agentBalance ch' = agentBalance ch + x
             \<and> casinoBalance ch' = casinoBalance ch - x
             \<and> nonce ch' = nonce ch + 1
             \<and> unclaimed_of L' (agent ch) = u - x
             \<and> (\<forall>s. sg (agent ch) (agentBalance ch + x) (casinoBalance ch - x) (nonce ch + 1)
                      = Some s
                  \<longrightarrow> fst (lotto_claim sg ch Lc) =
                        Inr (Claimed x (u - x) (agentBalance ch + x) (casinoBalance ch - x)
                               (nonce ch + 1) s))"
    unfolding lotto_claim_eq[OF nz] Let_def
    by (cases "sg (agent ch) (agentBalance ch + min (unclaimed_of Lc (agent ch)) (casinoBalance ch))
                 (casinoBalance ch - min (unclaimed_of Lc (agent ch)) (casinoBalance ch))
                 (nonce ch + 1)")
      (auto simp: unclaimed_of_def min_def)
qed

text \<open>
  The statement at the example draw: the agent's two tickets on 1 win 0.17 ether, which a
  claim in a channel facing a house of 10 ether pays out in full.
\<close>

theorem lotto_winnings_lifecycle_witness:
  "map_of (draws ex_lotto_sold) 1 = Some ex_draw \<and> \<not> drawn ex_draw
   \<and> distinct (map fst (tickets ex_draw))
   \<and> matching 1 ex_draw ''0x1111'' = 2
   \<and> unclaimed_of ex_lotto_sold ''0x1111'' = 0
   \<and> unclaimed_of ex_lotto_drawn ''0x1111'' = 170000000000000000
   \<and> agentBalance (fst (snd (lotto_claim ok_signer ex_rich_house ex_lotto_drawn)))
       = 270000000000000000
   \<and> casinoBalance (fst (snd (lotto_claim ok_signer ex_rich_house ex_lotto_drawn)))
       = 9830000000000000000
   \<and> nonce (fst (snd (lotto_claim ok_signer ex_rich_house ex_lotto_drawn))) = 1
   \<and> unclaimed_of (snd (snd (lotto_claim ok_signer ex_rich_house ex_lotto_drawn))) ''0x1111'' = 0"
proof -
  have a: "map_of (draws ex_lotto_sold) 1 = Some ex_draw" by (simp add: ex_lotto_sold_def)
  have b: "\<not> drawn ex_draw" by (simp add: ex_draw_def)
  have c: "distinct (map fst (tickets ex_draw))" by (simp add: ex_draw_def)
  have d: "length (zero_hash (casinoSeed ex_draw @ '':'' @
            (decimal (length (tickets ex_draw)) @ '':'' @ decimal_int (totalPool ex_draw)) @
            '':'' @ decimal 1)) = 32"
    by (simp add: zero_hash_def)
  have z: "\<And>s. uint32_be (zero_hash s) 0 = 0"
    by (simp add: uint32_be_def zero_hash_def)
  have m: "matching 1 ex_draw ''0x1111'' = 2" by (simp add: matching_def ex_draw_def)
  have u0: "unclaimed_of ex_lotto_sold ''0x1111'' = 0"
    by (simp add: unclaimed_of_def ex_lotto_sold_def)
  note lifecycle = lotto_winnings_lifecycle[where L=ex_lotto_sold and did=1 and d=ex_draw
      and H=zero_hash and rnd="''n3w''" and now=21600000 and Lc=ex_lotto_drawn
      and ch=ex_rich_house and sg=ok_signer]
  from lifecycle a b c d obtain res L' where
    ex: "executeDraw zero_hash ''n3w'' 21600000 ex_lotto_sold 1 = (Inr res, L')"
    and w: "dr_winningNumber res = 1"
    and u: "\<forall>a. unclaimed_of L' a =
              unclaimed_of ex_lotto_sold a
                + TICKET_PRICE * 85 * int (matching (dr_winningNumber res) ex_draw a)"
    by (auto simp: z)
  from ex have L': "ex_lotto_drawn = L'" by (simp add: ex_lotto_drawn_def)
  have u1: "unclaimed_of ex_lotto_drawn ''0x1111'' = 170000000000000000"
    using u w m u0 by (simp add: L' TICKET_PRICE_def)
  have ag: "agent ex_rich_house = ''0x1111''" by (simp add: ex_rich_house_def mk_channel_def)
  have nz: "unclaimed_of ex_lotto_drawn (agent ex_rich_house) \<noteq> 0"
    using u1 by (simp add: ag)
  from lifecycle nz show ?thesis
    using a b c m u0 u1
    by (simp add: Let_def ag) (simp add: ex_rich_house_def mk_channel_def)
qed

section \<open>Conservation and the signer\<close>

lemma same_total_refl [simp]: "same_total ch ch"
  by (simp add: same_total_def)

lemma same_total_conserved: "same_total ch ch' \<Longrightarrow> conserved ch \<Longrightarrow> conserved ch'"
  by (simp add: same_total_def conserved_def)

lemma same_total_symmetric: "same_total ch ch' \<Longrightarrow> symmetric_update ch ch'"
proof -
  assume "same_total ch ch'"
  then have "agentBalance ch' = agentBalance ch + (agentBalance ch' - agentBalance ch)
      \<and> casinoBalance ch' = casinoBalance ch - (agentBalance ch' - agentBalance ch)"
    by (simp add: same_total_def)
  then show ?thesis unfolding symmetric_update_def by blast
qed

lemma slots_reveal_same_total:
  "same_total ch (fst (snd (slots_reveal H sg now ch agentSeed pc)))"
  by (simp add: slots_reveal_def same_total_def Let_def split: option.splits)

lemma coinflip_reveal_same_total:
  "same_total ch (fst (snd (coinflip_reveal H sg now ch agentSeed pc)))"
  by (simp add: coinflip_reveal_def same_total_def Let_def split: option.splits)

lemma lotto_buy_same_total:
  "same_total ch (fst (snd (lotto_buy sg now ch pickedNumber ticketCount L)))"
  by (simp add: lotto_buy_def same_total_def Let_def split: option.splits)

lemma lotto_claim_same_total:
  "same_total ch (fst (snd (lotto_claim sg ch L)))"
  by (simp add: lotto_claim_def same_total_def Let_def split: option.splits)

lemma applyWinnings_same_total:
  "same_total ch (fst (snd (applyWinnings sg ch payoutWei L)))"
  by (simp add: applyWinnings_def same_total_def Let_def split: option.splits)

lemma slots_reveal_agent [simp]:
  "agent (fst (snd (slots_reveal H sg now ch agentSeed pc))) = agent ch"
  by (simp add: slots_reveal_def Let_def split: option.splits)

lemma coinflip_reveal_agent [simp]:
  "agent (fst (snd (coinflip_reveal H sg now ch agentSeed pc))) = agent ch"
  by (simp add: coinflip_reveal_def Let_def split: option.splits)

lemma lotto_buy_agent [simp]:
  "agent (fst (snd (lotto_buy sg now ch pickedNumber ticketCount L))) = agent ch"
  by (simp add: lotto_buy_def Let_def split: option.splits)

lemma lotto_claim_agent [simp]:
  "agent (fst (snd (lotto_claim sg ch L))) = agent ch"
  by (simp add: lotto_claim_def Let_def split: option.splits)

lemma applyWinnings_agent [simp]:
  "agent (fst (snd (applyWinnings sg ch payoutWei L))) = agent ch"
  by (simp add: applyWinnings_def Let_def split: option.splits)

text \<open>Conservation along a run of the engine.\<close>

lemma chans_conserved_upd:
  "chans_conserved C \<Longrightarrow> conserved ch \<Longrightarrow> chans_conserved (C(a \<mapsto> ch))"
  by (simp add: chans_conserved_def)

lemma applyToWinners_conserved:
  "chans_conserved C \<Longrightarrow> chans_conserved (fst (applyToWinners sg C L ws))"
proof (induction ws arbitrary: C L)
  case Nil
  then show ?case by simp
next
  case (Cons x ws)
  obtain a m p where x: "x = (a, m, p)" by (cases x)
  show ?case
  proof (cases "C a")
    case None
    then show ?thesis using Cons.IH[OF Cons.prems] by (simp add: x)
  next
    case (Some ch)
    obtain r ch' L' where aw: "applyWinnings sg ch p L = (r, ch', L')"
      by (cases "applyWinnings sg ch p L")
    from Some Cons.prems have "conserved ch" by (simp add: chans_conserved_def)
    from same_total_conserved[OF applyWinnings_same_total this, of sg p L] aw
    have "conserved ch'" by simp
    then have C': "chans_conserved (C(a \<mapsto> ch'))"
      by (rule chans_conserved_upd[OF Cons.prems])
    have eq: "applyToWinners sg C L (x # ws) =
        (case r of Inl e \<Rightarrow> (C(a \<mapsto> ch'), L')
         | Inr v \<Rightarrow> applyToWinners sg (C(a \<mapsto> ch')) L' ws)"
      by (cases r) (simp_all add: x Some aw)
    note ih = Cons.IH[OF C']
    show ?thesis
    proof (cases r)
      case (Inl e)
      then show ?thesis unfolding eq using C' by (auto simp: chans_conserved_def)
    next
      case (Inr v)
      then show ?thesis unfolding eq using ih by (simp add: fun_upd_def)
    qed
  qed
qed

lemma runDraws_conserved:
  "engine_conserved E \<Longrightarrow> engine_conserved (runDraws H ev k ds E)"
proof (induction ds arbitrary: E k)
  case Nil
  then show ?case by simp
next
  case (Cons did ds)
  obtain r L' where ex: "executeDraw H (e_rnd ev k) (e_now ev) (lotto E) did = (r, L')"
    by (cases "executeDraw H (e_rnd ev k) (e_now ev) (lotto E) did")
  from Cons.prems have c: "chans_conserved (channels E)"
    by (simp add: engine_conserved_def chans_conserved_def)
  show ?case
  proof (cases r)
    case (Inl e)
    have "engine_conserved (E\<lparr>lotto := L'\<rparr>)"
      using Cons.prems by (simp add: engine_conserved_def)
    from Cons.IH[OF this] show ?thesis by (simp add: ex Inl)
  next
    case (Inr res)
    obtain C' L'' where ap: "applyToWinners (e_sign ev) (channels E) L' (dr_winners res) = (C', L'')"
      by (cases "applyToWinners (e_sign ev) (channels E) L' (dr_winners res)")
    from applyToWinners_conserved[OF c, of "e_sign ev" L' "dr_winners res"] ap
    have "chans_conserved C'" by simp
    then have "engine_conserved (E\<lparr>channels := C', lotto := L''\<rparr>)"
      by (simp add: engine_conserved_def chans_conserved_def)
    from Cons.IH[OF this] show ?thesis by (simp add: ex Inr ap)
  qed
qed

lemma handleGameAction_conserved:
  assumes "engine_conserved E"
  shows "engine_conserved (snd (handleGameAction H ev E a act))"
proof (cases "channels E a")
  case None
  then show ?thesis using assms by (simp add: handleGameAction_def)
next
  case (Some ch)
  from assms have c: "chans_conserved (channels E)"
    by (simp add: engine_conserved_def chans_conserved_def)
  with Some have n: "conserved ch" by (simp add: chans_conserved_def)
  have e: "engine_conserved E' \<longleftrightarrow> chans_conserved (channels E')" for E'
    by (simp add: engine_conserved_def chans_conserved_def)
  show ?thesis
  proof (cases act)
    case (SlotsCommit bet)
    then show ?thesis using c by (simp add: handleGameAction_def Some e case_prod_beta)
  next
    case (SlotsReveal s)
    then show ?thesis
      using chans_conserved_upd[OF c same_total_conserved[OF slots_reveal_same_total n], of a]
      by (simp add: handleGameAction_def Some e case_prod_beta)
  next
    case (CoinflipCommit c' bet)
    then show ?thesis using c by (simp add: handleGameAction_def Some e case_prod_beta)
  next
    case (CoinflipReveal s)
    then show ?thesis
      using chans_conserved_upd[OF c same_total_conserved[OF coinflip_reveal_same_total n], of a]
      by (simp add: handleGameAction_def Some e case_prod_beta)
  next
    case (LottoBuy pick cnt)
    then show ?thesis
      using chans_conserved_upd[OF c same_total_conserved[OF lotto_buy_same_total n], of a]
      by (simp add: handleGameAction_def Some e case_prod_beta)
  next
    case LottoClaim
    then show ?thesis
      using chans_conserved_upd[OF c same_total_conserved[OF lotto_claim_same_total n], of a]
      by (simp add: handleGameAction_def Some e case_prod_beta)
  qed
qed

lemma step_conserved:
  "engine_conserved E \<Longrightarrow> engine_conserved (step H eo E)"
proof -
  assume inv: "engine_conserved E"
  obtain ev op where eo: "eo = (ev, op)" by (cases eo)
  show ?thesis
  proof (cases op)
    case (OpenChannel a x y)
    then show ?thesis using inv eo
      by (auto simp: openChannel_def engine_conserved_def conserved_def)
  next
    case (CloseChannel a)
    then show ?thesis using inv eo
      by (auto simp: closeChannel_def engine_conserved_def split: option.splits)
  next
    case (GameAction a act)
    then show ?thesis using handleGameAction_conserved[OF inv] eo by simp
  next
    case RunScheduledTasks
    then show ?thesis using runDraws_conserved[OF inv] eo by (simp add: runScheduledTasks_def)
  qed
qed

lemma run_conserved:
  "engine_conserved E \<Longrightarrow> engine_conserved (run H E evs)"
  by (induction evs arbitrary: E) (simp_all add: step_conserved)

lemma engine_init_conserved: "engine_conserved (engine_init H rnd now)"
  by (simp add: engine_init_def engine_conserved_def)

lemma run_from_init_conserved: "engine_conserved (run H (engine_init H rnd t0) evs)"
  by (rule run_conserved[OF engine_init_conserved])

text \<open>
  C1. Each of the five operations that change balances (slots reveal, coinflip reveal,
  lotto buy, lotto claim, \<open>applyWinnings\<close>) leaves a channel in which
  \<open>agentBalance + houseBalance = agentDeposit + houseDeposit\<close> whenever that held before,
  and its update is symmetric: what one side gains the other loses. This holds for what
  the operation leaves behind on every path, the successful one included. Hence every
  channel of an engine satisfies the equality after every sequence of operations run from
  construction.
\<close>

theorem conservation_per_operation:
  "(conserved ch \<longrightarrow>
      conserved (fst (snd (slots_reveal H sg now ch agentSeed pc)))
      \<and> conserved (fst (snd (coinflip_reveal H sg now ch agentSeed pc)))
      \<and> conserved (fst (snd (lotto_buy sg now ch pickedNumber ticketCount L)))
      \<and> conserved (fst (snd (lotto_claim sg ch L)))
      \<and> conserved (fst (snd (applyWinnings sg ch payoutWei L))))
   \<and> symmetric_update ch (fst (snd (slots_reveal H sg now ch agentSeed pc)))
   \<and> symmetric_update ch (fst (snd (coinflip_reveal H sg now ch agentSeed pc)))
   \<and> symmetric_update ch (fst (snd (lotto_buy sg now ch pickedNumber ticketCount L)))
   \<and> symmetric_update ch (fst (snd (lotto_claim sg ch L)))
   \<and> symmetric_update ch (fst (snd (applyWinnings sg ch payoutWei L)))
   \<and> engine_conserved (run H (engine_init H rnd t0) evs)"
proof (intro conjI impI)
  show "engine_conserved (run H (engine_init H rnd t0) evs)"
    by (rule run_from_init_conserved)
qed ((rule same_total_symmetric)?,
    (erule same_total_conserved[rotated] | rule slots_reveal_same_total
      coinflip_reveal_same_total lotto_buy_same_total lotto_claim_same_total
      applyWinnings_same_total)+)+

text \<open>
  The statement at the example slots round: the agent gains 4000 wei, the house loses
  4000 wei, and the channel is conserved before and after.
\<close>

theorem conservation_per_operation_witness:
  "conserved ex_rich_house
   \<and> conserved (fst (snd (slots_reveal zero_hash ok_signer 1000 ex_rich_house ''feed''
        ex_slots_pending)))
   \<and> agentBalance (fst (snd (slots_reveal zero_hash ok_signer 1000 ex_rich_house ''feed''
        ex_slots_pending))) = agentBalance ex_rich_house + 4000
   \<and> casinoBalance (fst (snd (slots_reveal zero_hash ok_signer 1000 ex_rich_house ''feed''
        ex_slots_pending))) = casinoBalance ex_rich_house - 4000
   \<and> engine_conserved (run zero_hash (engine_init zero_hash ''5eed'' 0) ex_ops)"
proof -
  have c: "conserved ex_rich_house"
    by (simp add: conserved_def ex_rich_house_def mk_channel_def)
  have a: "ex_slots_pending (commitKey (agent ex_rich_house) Slots) =
      Some \<lparr>seed = ''c0ffee'', betWei = 1000, choice = None, game = ''slots'', timestamp = 0\<rparr>"
    by (simp add: ex_slots_pending_def ex_rich_house_def mk_channel_def)
  have z: "\<And>s k. k < 29 \<Longrightarrow> uint32_be (zero_hash s) k = 0"
    by (simp add: uint32_be_def zero_hash_def)
  have r: "fst (snd (slots_reveal zero_hash ok_signer 1000 ex_rich_house ''feed''
        ex_slots_pending)) =
      ex_rich_house\<lparr>agentBalance := agentBalance ex_rich_house - 1000 + 5000,
         casinoBalance := casinoBalance ex_rich_house + 1000 - 5000,
         nonce := nonce ex_rich_house + 1,
         games := games ex_rich_house @
           [SlotsRound (nonce ex_rich_house + 1) 1000 [0, 0, 0] 5 5000 1000]\<rparr>"
    by (subst slots_reveal_resolved[where pc=ex_slots_pending and ch=ex_rich_house and p="\<lparr>seed = ''c0ffee'', betWei = 1000, choice = None,
          game = ''slots'', timestamp = 0\<rparr>", OF a])
      (simp_all add: COMMIT_TIMEOUT_def computeResult_def z weight_bucket_def Let_def
        slots_multiplier_def PAYOUTS_def, simp_all add: ex_rich_house_def mk_channel_def zero_hash_def)
  from conservation_per_operation[where ch=ex_rich_house and H=zero_hash and sg=ok_signer
      and now=1000 and agentSeed="''feed''" and pc=ex_slots_pending and rnd="''5eed''"
      and ?t0.0=0 and evs=ex_ops]
  show ?thesis using c by (simp add: r)
qed




















section \<open>Settlement of a channel in which no game was played\<close>

lemma centi_ether_bounds:
  "MIN_DEPOSIT \<le> centi_ether" "centi_ether \<le> MAX_DEPOSIT" "0 < centi_ether"
  "centi_ether + centi_ether \<le> uint256_max"
  by (simp_all add: centi_ether_def MIN_DEPOSIT_def MAX_DEPOSIT_def uint256_max_def)

lemma engine_open_close:
  assumes "channels E a = None" and "sg a x y 0 = Some s"
  shows "openChannel now E a x y =
           (Inr (x, y),
            E\<lparr>channels := (channels E)(a \<mapsto>
                 \<lparr>agent = a, agentDeposit = x, casinoDeposit = y,
                  agentBalance = x, casinoBalance = y, nonce = 0,
                  games = [], createdAt = now\<rparr>)\<rparr>)"
    and "closeChannel sg (snd (openChannel now E a x y)) a =
           (Inr \<lparr>cl_agentBalance = x, cl_casinoBalance = y, cl_nonce = 0,
                 cl_signature = s, cl_totalGames = 0\<rparr>, E)"
proof -
  show o: "openChannel now E a x y =
           (Inr (x, y),
            E\<lparr>channels := (channels E)(a \<mapsto>
                 \<lparr>agent = a, agentDeposit = x, casinoDeposit = y,
                  agentBalance = x, casinoBalance = y, nonce = 0,
                  games = [], createdAt = now\<rparr>)\<rparr>)"
    using assms by (simp add: openChannel_def)
  have "(channels E)(a := None) = channels E"
    using assms(1) by auto
  then show "closeChannel sg (snd (openChannel now E a x y)) a =
           (Inr \<lparr>cl_agentBalance = x, cl_casinoBalance = y, cl_nonce = 0,
                 cl_signature = s, cl_totalGames = 0\<rparr>, E)"
    using assms by (simp add: o closeChannel_def)
qed

lemma chain_open_fund:
  assumes "\<not> paused S0" and "c_state (cm_channels S0 a) = StNone"
    and "MIN_DEPOSIT \<le> v" and "v \<le> MAX_DEPOSIT"
    and "totalLocked S0 + w \<le> maxExposure S0" and "maxExposure S0 \<le> uint256_max"
    and "w \<le> uint256_max"
  shows "cm_openChannel a v t0 S0 =
           Inr (S0\<lparr>cm_channels := (cm_channels S0)(a :=
                  \<lparr>c_agentDeposit = v, c_casinoDeposit = 0, c_agentBalance = v,
                   c_casinoBalance = 0, c_nonce = 0, c_openedAt = t0,
                   c_disputeDeadline = 0, c_state = StOpen\<rparr>)\<rparr>)"
    and "fundCasinoSide (casino S0) a w
           (S0\<lparr>cm_channels := (cm_channels S0)(a :=
                  \<lparr>c_agentDeposit = v, c_casinoDeposit = 0, c_agentBalance = v,
                   c_casinoBalance = 0, c_nonce = 0, c_openedAt = t0,
                   c_disputeDeadline = 0, c_state = StOpen\<rparr>)\<rparr>) =
           Inr (opened_and_funded S0 a v w t0)"
  using assms
  by (simp_all add: cm_openChannel_def fundCasinoSide_def lockCollateral_def Let_def
      opened_and_funded_def)

lemma closeChannel_nonce0_stale:
  "cm_closeChannel recover accepts a ab cb 0 sig (opened_and_funded S0 a v w t0) = Inl StaleNonce"
  by (simp add: cm_closeChannel_def opened_and_funded_def Let_def)

lemma emergencyExit_funded:
  assumes "a \<noteq> casino S0" and "accepts a" and "accepts (casino S0)"
    and "t0 + MIN_CHANNEL_DURATION \<le> t1" and "t1 \<le> uint256_max"
    and "0 < v" and "0 < w"
  shows "emergencyExit accepts a t1 (opened_and_funded S0 a v w t0) =
     Inr ((0, v, w),
          S0\<lparr>cm_channels := (cm_channels S0)(a := no_channel),
             received := (received S0)(a := received S0 a + v,
                                       casino S0 := received S0 (casino S0) + w)\<rparr>)"
  using assms
  by (simp add: emergencyExit_def opened_and_funded_def settle_def unlockCollateral_def pay_def Let_def)

text \<open>
  C4 (as amended). An agent opens a channel with 0.01 ether, the house funds 0.01 ether,
  and no game is played. Off-chain, the close yields a signed state with nonce 0 and the
  balances unchanged, and removes the channel. On-chain, \<open>closeChannel\<close> rejects that
  state with \<open>StaleNonce\<close>, whatever the signature: it requires a nonce above the stored
  one, which is 0. The channel is settled by \<open>emergencyExit\<close> once the minimum channel
  duration has passed; it pays exactly 0.01 ether to each side, contributes 0 to the
  insurance fund and releases the locked collateral.
\<close>

theorem open_close_without_games:
  assumes no_channel_yet: "channels E a = None"
    and signer_answers: "sg a (int centi_ether) (int centi_ether) 0 = Some s"
    and not_paused: "\<not> paused S0"
    and no_chain_channel: "c_state (cm_channels S0 a) = StNone"
    and exposure: "totalLocked S0 + centi_ether \<le> maxExposure S0"
    and max_exposure: "maxExposure S0 \<le> uint256_max"
    and agent_not_house: "a \<noteq> casino S0"
    and payees: "accepts a" "accepts (casino S0)"
    and later: "t0 + MIN_CHANNEL_DURATION \<le> t1" "t1 \<le> uint256_max"
  shows "fst (openChannel now E a (int centi_ether) (int centi_ether))
           = Inr (int centi_ether, int centi_ether)
     \<and> closeChannel sg (snd (openChannel now E a (int centi_ether) (int centi_ether))) a =
           (Inr \<lparr>cl_agentBalance = int centi_ether, cl_casinoBalance = int centi_ether,
                 cl_nonce = 0, cl_signature = s, cl_totalGames = 0\<rparr>, E)
     \<and> (\<exists>S1. cm_openChannel a centi_ether t0 S0 = Inr S1
             \<and> fundCasinoSide (casino S0) a centi_ether S1 =
                 Inr (opened_and_funded S0 a centi_ether centi_ether t0))
     \<and> cm_closeChannel recover accepts a centi_ether centi_ether 0 s
           (opened_and_funded S0 a centi_ether centi_ether t0) = Inl StaleNonce
     \<and> emergencyExit accepts a t1 (opened_and_funded S0 a centi_ether centi_ether t0) =
           Inr ((0, centi_ether, centi_ether),
                S0\<lparr>cm_channels := (cm_channels S0)(a := no_channel),
                   received := (received S0)(a := received S0 a + centi_ether,
                     casino S0 := received S0 (casino S0) + centi_ether)\<rparr>)"
proof (intro conjI)
  show "fst (openChannel now E a (int centi_ether) (int centi_ether))
           = Inr (int centi_ether, int centi_ether)"
    by (simp add: engine_open_close(1)[where sg=sg and x="int centi_ether" and y="int centi_ether", OF no_channel_yet signer_answers])
  show "closeChannel sg (snd (openChannel now E a (int centi_ether) (int centi_ether))) a =
           (Inr \<lparr>cl_agentBalance = int centi_ether, cl_casinoBalance = int centi_ether,
                 cl_nonce = 0, cl_signature = s, cl_totalGames = 0\<rparr>, E)"
    by (rule engine_open_close(2)[where sg=sg and x="int centi_ether" and y="int centi_ether", OF no_channel_yet signer_answers])
  have w: "centi_ether \<le> uint256_max"
    using centi_ether_bounds(4) by simp
  show "\<exists>S1. cm_openChannel a centi_ether t0 S0 = Inr S1
             \<and> fundCasinoSide (casino S0) a centi_ether S1 =
                 Inr (opened_and_funded S0 a centi_ether centi_ether t0)"
    using chain_open_fund[OF not_paused no_chain_channel centi_ether_bounds(1,2)
        exposure max_exposure w, of t0]
    by blast
  show "cm_closeChannel recover accepts a centi_ether centi_ether 0 s
           (opened_and_funded S0 a centi_ether centi_ether t0) = Inl StaleNonce"
    by (rule closeChannel_nonce0_stale)
  show "emergencyExit accepts a t1 (opened_and_funded S0 a centi_ether centi_ether t0) =
           Inr ((0, centi_ether, centi_ether),
                S0\<lparr>cm_channels := (cm_channels S0)(a := no_channel),
                   received := (received S0)(a := received S0 a + centi_ether,
                     casino S0 := received S0 (casino S0) + centi_ether)\<rparr>)"
    by (rule emergencyExit_funded[where accepts=accepts, OF agent_not_house payees later centi_ether_bounds(3)
          centi_ether_bounds(3)])
qed

text \<open>
  The statement as first written fails: on the example chain, where the signature
  recovers to the house and the balances match the deposits, \<open>closeChannel\<close> with the
  signed state of nonce 0 reverts with \<open>StaleNonce\<close> and pays nothing.
\<close>

theorem closeChannel_nonce0_counterexample:
  "cm_openChannel ''0x1111'' centi_ether 1000 ex_chain0 = Inr ex_chain_open
   \<and> fundCasinoSide ''0xca51'' ''0x1111'' centi_ether ex_chain_open = Inr ex_chain_funded
   \<and> ex_recover ''0x1111'' centi_ether centi_ether 0 ''signed'' = Some (casino ex_chain_funded)
   \<and> c_agentDeposit (cm_channels ex_chain_funded ''0x1111'')
        + c_casinoDeposit (cm_channels ex_chain_funded ''0x1111'') = centi_ether + centi_ether
   \<and> cm_closeChannel ex_recover ex_accepts ''0x1111'' centi_ether centi_ether 0 ''signed''
        ex_chain_funded = Inl StaleNonce"
  by (simp add: cm_openChannel_def fundCasinoSide_def lockCollateral_def cm_closeChannel_def
      ex_chain0_def ex_chain_open_def ex_chain_funded_def ex_recover_def centi_ether_def
      no_channel_def MIN_DEPOSIT_def MAX_DEPOSIT_def uint256_max_def Let_def)

text \<open>
  The amended statement on the example chain, with the exit taken one hour after the
  opening.
\<close>

theorem open_close_without_games_witness:
  "channels (engine_init zero_hash ''5eed'' 0) ''0x1111'' = None
   \<and> ok_signer ''0x1111'' (int centi_ether) (int centi_ether) 0 = Some ''signed''
   \<and> \<not> paused ex_chain0 \<and> c_state (cm_channels ex_chain0 ''0x1111'') = StNone
   \<and> totalLocked ex_chain0 + centi_ether \<le> maxExposure ex_chain0
   \<and> ''0x1111'' \<noteq> casino ex_chain0
   \<and> (1000::nat) + MIN_CHANNEL_DURATION \<le> 4600
   \<and> opened_and_funded ex_chain0 ''0x1111'' centi_ether centi_ether 1000 = ex_chain_funded
   \<and> closeChannel ok_signer
        (snd (openChannel 0 (engine_init zero_hash ''5eed'' 0) ''0x1111'' (int centi_ether)
               (int centi_ether))) ''0x1111'' =
        (Inr \<lparr>cl_agentBalance = int centi_ether, cl_casinoBalance = int centi_ether,
              cl_nonce = 0, cl_signature = ''signed'', cl_totalGames = 0\<rparr>,
         engine_init zero_hash ''5eed'' 0)
   \<and> cm_closeChannel ex_recover ex_accepts ''0x1111'' centi_ether centi_ether 0 ''signed''
        ex_chain_funded = Inl StaleNonce
   \<and> emergencyExit ex_accepts ''0x1111'' 4600 ex_chain_funded =
        Inr ((0, centi_ether, centi_ether),
             ex_chain0\<lparr>cm_channels := (cm_channels ex_chain0)(''0x1111'' := no_channel),
                received := (received ex_chain0)(''0x1111'' := centi_ether,
                  ''0xca51'' := centi_ether)\<rparr>)"
proof -
  have a: "channels (engine_init zero_hash ''5eed'' 0) ''0x1111'' = None"
    by (simp add: engine_init_def)
  have b: "ok_signer ''0x1111'' (int centi_ether) (int centi_ether) 0 = Some ''signed''"
    by (simp add: ok_signer_def)
  have c: "\<not> paused ex_chain0" "c_state (cm_channels ex_chain0 ''0x1111'') = StNone"
    "totalLocked ex_chain0 + centi_ether \<le> maxExposure ex_chain0"
    "maxExposure ex_chain0 \<le> uint256_max" "''0x1111'' \<noteq> casino ex_chain0"
    by (simp_all add: ex_chain0_def no_channel_def centi_ether_def uint256_max_def)
  have d: "ex_accepts ''0x1111''" "ex_accepts (casino ex_chain0)"
    by (simp_all add: ex_accepts_def)
  have e: "(1000::nat) + MIN_CHANNEL_DURATION \<le> 4600" "(4600::nat) \<le> uint256_max"
    by (simp_all add: MIN_CHANNEL_DURATION_def uint256_max_def)
  have f: "opened_and_funded ex_chain0 ''0x1111'' centi_ether centi_ether 1000 = ex_chain_funded"
    by (simp add: opened_and_funded_def ex_chain_funded_def ex_chain0_def centi_ether_def)
  have g: "casino ex_chain0 = ''0xca51''" "received ex_chain0 ''0x1111'' = 0"
    "received ex_chain0 ''0xca51'' = 0"
    by (simp_all add: ex_chain0_def)
  from open_close_without_games[where E="engine_init zero_hash ''5eed'' 0" and a="''0x1111''"
      and sg=ok_signer and s="''signed''" and ?S0.0=ex_chain0 and accepts=ex_accepts
      and ?t0.0=1000 and ?t1.0=4600 and recover=ex_recover and now=0,
      OF a b c(1) c(2) c(3) c(4) c(5) d(1) d(2) e(1) e(2)]
  show ?thesis
    using a b c e(1) by (simp add: f g)
qed

section \<open>Non-negativity of balances\<close>

lemma cap_le: "cap x l \<le> l"
  by (simp add: cap_def)

lemma cap_nonneg: "0 \<le> x \<Longrightarrow> 0 \<le> l \<Longrightarrow> 0 \<le> cap x l"
  by (simp add: cap_def)

lemma getSymbol_less: "getSymbol r < 5"
  by (simp add: getSymbol_def WEIGHTS_def)

lemma round_nonneg:
  fixes bet ab cb payout :: int
  shows "0 \<le> bet \<Longrightarrow> bet \<le> ab \<Longrightarrow> 0 \<le> payout \<Longrightarrow> payout \<le> cb + bet \<Longrightarrow>
    0 \<le> ab - bet + payout \<and> 0 \<le> cb + bet - payout"
  by arith

lemma slots_payout_bounds:
  assumes "0 \<le> bet" and "0 \<le> cb"
  shows "0 \<le> cap (bet * slots_multiplier [getSymbol a, getSymbol b, getSymbol c]) cb"
    and "cap (bet * slots_multiplier [getSymbol a, getSymbol b, getSymbol c]) cb \<le> cb + bet"
proof -
  have "0 \<le> slots_multiplier [getSymbol a, getSymbol b, getSymbol c]"
    by (rule slots_multiplier_nonneg[OF getSymbol_less])
  with assms show "0 \<le> cap (bet * slots_multiplier [getSymbol a, getSymbol b, getSymbol c]) cb"
    by (simp add: cap_nonneg)
  show "cap (bet * slots_multiplier [getSymbol a, getSymbol b, getSymbol c]) cb \<le> cb + bet"
    using cap_le[of "bet * slots_multiplier [getSymbol a, getSymbol b, getSymbol c]" cb] assms
    by simp
qed

lemma coinflip_payout_bounds:
  assumes "0 \<le> bet" and "0 \<le> cb"
  shows "0 \<le> coinflip_payout won bet cb" and "coinflip_payout won bet cb \<le> cb + bet"
proof -
  have "0 \<le> bet * 19 div 10" using assms(1) by simp
  then show "0 \<le> coinflip_payout won bet cb"
    using assms by (simp add: coinflip_payout_floor)
  show "coinflip_payout won bet cb \<le> cb + bet"
    using assms by (simp add: coinflip_payout_floor)
qed

lemma slots_reveal_nonneg:
  assumes "nonneg ch" and "pc_ok pc"
  shows "nonneg (fst (snd (slots_reveal H sg now ch agentSeed pc)))"
proof (cases "pc (commitKey (agent ch) Slots)")
  case None
  then show ?thesis using assms by (simp add: slots_reveal_def)
next
  case (Some p)
  with assms(2) have bet: "0 \<le> betWei p" by (auto simp: pc_ok_def dest: less_imp_le)
  from assms(1) have cb: "0 \<le> casinoBalance ch" by (simp add: nonneg_def)
  show ?thesis
    using assms(1) Some
      round_nonneg[OF bet _ slots_payout_bounds[OF bet cb], of "agentBalance ch"]
    by (simp add: slots_reveal_def Let_def nonneg_def split: option.splits)
qed

lemma coinflip_reveal_nonneg:
  assumes "nonneg ch" and "pc_ok pc"
  shows "nonneg (fst (snd (coinflip_reveal H sg now ch agentSeed pc)))"
proof (cases "pc (commitKey (agent ch) Coinflip)")
  case None
  then show ?thesis using assms by (simp add: coinflip_reveal_def)
next
  case (Some p)
  with assms(2) have bet: "0 \<le> betWei p" by (auto simp: pc_ok_def dest: less_imp_le)
  from assms(1) have cb: "0 \<le> casinoBalance ch" by (simp add: nonneg_def)
  show ?thesis
    using assms(1) Some
      round_nonneg[OF bet _ coinflip_payout_bounds[OF bet cb], of "agentBalance ch"]
    by (simp add: coinflip_reveal_def Let_def nonneg_def split: option.splits)
qed

lemma lotto_buy_nonneg:
  assumes "nonneg ch"
  shows "nonneg (fst (snd (lotto_buy sg now ch pickedNumber ticketCount L)))"
proof -
  have "0 \<le> TICKET_PRICE * ticketCount" if "1 \<le> ticketCount"
    using that by (simp add: TICKET_PRICE_def)
  then show ?thesis
    using assms
    by (auto simp: lotto_buy_def Let_def nonneg_def split: option.splits)
qed

lemma lotto_claim_nonneg:
  assumes "nonneg ch" and "unclaimed_ok L"
  shows "nonneg (fst (snd (lotto_claim sg ch L)))"
proof -
  have "0 \<le> unclaimed_of L (agent ch)"
    using assms(2) by (auto simp: unclaimed_ok_def unclaimed_of_def split: option.splits)
  then show ?thesis
    using assms(1)
    by (auto simp: lotto_claim_def Let_def nonneg_def split: option.splits)
qed

lemma applyWinnings_nonneg:
  assumes "nonneg ch" and "0 \<le> payoutWei"
  shows "nonneg (fst (snd (applyWinnings sg ch payoutWei L)))"
  using assms
  by (auto simp: applyWinnings_def Let_def nonneg_def split: option.splits)

lemma slots_commit_pc_ok:
  "pc_ok pc \<Longrightarrow> pc_ok (snd (slots_commit H rnd now ch bet pc))"
proof -
  assume ok: "pc_ok pc"
  obtain r pc' where e: "slots_commit H rnd now ch bet pc = (r, pc')"
    by (cases "slots_commit H rnd now ch bet pc")
  show ?thesis
  proof (cases r)
    case (Inl x)
    with e ok slots_commit_Inl[of H rnd now ch bet pc x pc'] show ?thesis by simp
  next
    case (Inr y)
    with e slots_commit_Inr[of H rnd now ch bet pc y pc'] ok show ?thesis
      by (auto simp: pc_ok_def)
  qed
qed

lemma coinflip_commit_pc_ok:
  "pc_ok pc \<Longrightarrow> pc_ok (snd (coinflip_commit H rnd now ch c bet pc))"
proof -
  assume ok: "pc_ok pc"
  obtain r pc' where e: "coinflip_commit H rnd now ch c bet pc = (r, pc')"
    by (cases "coinflip_commit H rnd now ch c bet pc")
  show ?thesis
  proof (cases r)
    case (Inl x)
    with e ok coinflip_commit_Inl[of H rnd now ch c bet pc x pc'] show ?thesis by simp
  next
    case (Inr y)
    with e coinflip_commit_Inr[of H rnd now ch c bet pc y pc'] ok show ?thesis
      by (auto simp: pc_ok_def)
  qed
qed

lemma pc_ok_delete: "pc_ok pc \<Longrightarrow> pc_ok (pc(k := None))"
  by (auto simp: pc_ok_def)

lemma slots_reveal_pc_ok:
  "pc_ok pc \<Longrightarrow> pc_ok (snd (snd (slots_reveal H sg now ch agentSeed pc)))"
  by (simp add: slots_reveal_def Let_def pc_ok_delete split: option.splits)

lemma coinflip_reveal_pc_ok:
  "pc_ok pc \<Longrightarrow> pc_ok (snd (snd (coinflip_reveal H sg now ch agentSeed pc)))"
  by (simp add: coinflip_reveal_def Let_def pc_ok_delete split: option.splits)

lemma lotto_buy_unclaimed:
  "unclaimedWinnings (snd (snd (lotto_buy sg now ch pickedNumber ticketCount L)))
     = unclaimedWinnings L"
  by (simp add: lotto_buy_def Let_def split: option.splits)

lemma lotto_claim_unclaimed_ok:
  "unclaimed_ok L \<Longrightarrow> unclaimed_ok (snd (snd (lotto_claim sg ch L)))"
  by (auto simp: lotto_claim_def Let_def unclaimed_ok_def split: option.splits if_splits)

lemma applyWinnings_unclaimed_ok:
  "unclaimed_ok L \<Longrightarrow> unclaimed_ok (snd (snd (applyWinnings sg ch payoutWei L)))"
  by (auto simp: applyWinnings_def Let_def unclaimed_ok_def split: option.splits if_splits)

section \<open>The engine's invariant\<close>

lemma credit_winners_ok:
  "(\<forall>a u. U a = Some u \<longrightarrow> 0 \<le> u) \<Longrightarrow>
   (\<forall>a u. snd (credit_winners w tk U) a = Some u \<longrightarrow> 0 \<le> u)
   \<and> (\<forall>x \<in> set (fst (credit_winners w tk U)). 0 \<le> snd (snd x))"
proof (induction tk arbitrary: U)
  case Nil
  then show ?case by simp
next
  case (Cons x tk)
  obtain b ts where x: "x = (b, ts)" by (cases x)
  define m where "m = length (filter (\<lambda>t. t = int w) ts)"
  define U1 where "U1 = U(b \<mapsto> (case U b of None \<Rightarrow> 0 | Some v \<Rightarrow> v) +
          TICKET_PRICE * PAYOUT_MULTIPLIER * int m)"
  have step: "credit_winners w (x # tk) U =
      (if m > 0 then ((b, m, TICKET_PRICE * PAYOUT_MULTIPLIER * int m) #
                        fst (credit_winners w tk U1), snd (credit_winners w tk U1))
       else credit_winners w tk U)"
    by (simp add: x m_def U1_def Let_def case_prod_beta)
  have pay: "0 \<le> TICKET_PRICE * PAYOUT_MULTIPLIER * int m"
    by (simp add: TICKET_PRICE_def PAYOUT_MULTIPLIER_def)
  have "0 \<le> (case U b of None \<Rightarrow> 0 | Some v \<Rightarrow> v)"
    using Cons.prems by (auto split: option.splits)
  with pay have U1: "\<forall>a u. U1 a = Some u \<longrightarrow> 0 \<le> u"
    using Cons.prems by (auto simp: U1_def)
  show ?case
    unfolding step using Cons.IH[OF U1] Cons.IH[OF Cons.prems] pay by auto
qed

lemma executeDraw_unclaimed_ok:
  assumes "unclaimed_ok L"
  shows "unclaimed_ok (snd (executeDraw H rnd now L did))"
    and "\<And>res. fst (executeDraw H rnd now L did) = Inr res \<Longrightarrow>
           \<forall>x \<in> set (dr_winners res). 0 \<le> snd (snd x)"
proof -
  have U: "\<forall>a u. unclaimedWinnings L a = Some u \<longrightarrow> 0 \<le> u"
    using assms by (simp add: unclaimed_ok_def)
  note cw = credit_winners_ok[OF U]
  show "unclaimed_ok (snd (executeDraw H rnd now L did))"
    using assms cw
    by (auto simp: executeDraw_def Let_def unclaimed_ok_def startNewDraw_def commit_def
        case_prod_beta split: option.splits)
  have cw2: "\<And>w tk a m p. (a, m, p) \<in> set (fst (credit_winners w tk (unclaimedWinnings L)))
      \<Longrightarrow> 0 \<le> p"
    using cw by fastforce
  fix res assume "fst (executeDraw H rnd now L did) = Inr res"
  then show "\<forall>x \<in> set (dr_winners res). 0 \<le> snd (snd x)"
    by (auto simp: executeDraw_def Let_def case_prod_beta dest: cw2
        split: option.splits if_splits)
qed

lemma applyToWinners_ok:
  "chans_ok C \<Longrightarrow> unclaimed_ok L \<Longrightarrow> \<forall>x \<in> set ws. 0 \<le> snd (snd x) \<Longrightarrow>
   chans_ok (fst (applyToWinners sg C L ws)) \<and> unclaimed_ok (snd (applyToWinners sg C L ws))"
proof (induction ws arbitrary: C L)
  case Nil
  then show ?case by simp
next
  case (Cons x ws)
  obtain a m p where x: "x = (a, m, p)" by (cases x)
  from Cons.prems x have p: "0 \<le> p" and rest: "\<forall>x \<in> set ws. 0 \<le> snd (snd x)" by auto
  show ?case
  proof (cases "C a")
    case None
    then show ?thesis using Cons.IH[OF Cons.prems(1,2) rest] by (simp add: x)
  next
    case (Some ch)
    obtain r ch' L' where aw: "applyWinnings sg ch p L = (r, ch', L')"
      by (cases "applyWinnings sg ch p L")
    from Some Cons.prems(1) have "nonneg ch" by (simp add: chans_ok_def)
    from applyWinnings_nonneg[OF this p, of sg L] aw have n': "nonneg ch'" by simp
    with Cons.prems(1) have C': "chans_ok (C(a \<mapsto> ch'))" by (simp add: chans_ok_def)
    from applyWinnings_unclaimed_ok[OF Cons.prems(2), of sg ch p] aw
    have L': "unclaimed_ok L'" by simp
    have eq: "applyToWinners sg C L (x # ws) =
        (case r of Inl e \<Rightarrow> (C(a \<mapsto> ch'), L')
         | Inr v \<Rightarrow> applyToWinners sg (C(a \<mapsto> ch')) L' ws)"
      by (cases r) (simp_all add: x Some aw)
    note ih = Cons.IH[OF C' L' rest]
    show ?thesis
    proof (cases r)
      case (Inl e)
      then show ?thesis unfolding eq using C' L' by (auto simp: chans_ok_def)
    next
      case (Inr v)
      then show ?thesis unfolding eq using ih by (simp add: fun_upd_def)
    qed
  qed
qed

lemma runDraws_inv:
  "engine_inv E \<Longrightarrow> engine_inv (runDraws H ev k ds E)"
proof (induction ds arbitrary: E k)
  case Nil
  then show ?case by simp
next
  case (Cons did ds)
  obtain r L' where ex: "executeDraw H (e_rnd ev k) (e_now ev) (lotto E) did = (r, L')"
    by (cases "executeDraw H (e_rnd ev k) (e_now ev) (lotto E) did")
  from Cons.prems have inv: "chans_ok (channels E)" "pc_ok (pendingCommits E)"
    "unclaimed_ok (lotto E)" by (simp_all add: engine_inv_def)
  from executeDraw_unclaimed_ok(1)[OF inv(3), of H "e_rnd ev k" "e_now ev" did] ex
  have L': "unclaimed_ok L'" by simp
  show ?case
  proof (cases r)
    case (Inl e)
    have "engine_inv (E\<lparr>lotto := L'\<rparr>)" using inv L' by (simp add: engine_inv_def)
    from Cons.IH[OF this] show ?thesis by (simp add: ex Inl)
  next
    case (Inr res)
    from executeDraw_unclaimed_ok(2)[OF inv(3), of H "e_rnd ev k" "e_now ev" did res] ex Inr
    have ws: "\<forall>x \<in> set (dr_winners res). 0 \<le> snd (snd x)" by simp
    obtain C' L'' where ap: "applyToWinners (e_sign ev) (channels E) L' (dr_winners res) = (C', L'')"
      by (cases "applyToWinners (e_sign ev) (channels E) L' (dr_winners res)")
    from applyToWinners_ok[OF inv(1) L' ws, of "e_sign ev"] ap
    have "chans_ok C'" "unclaimed_ok L''" by simp_all
    then have "engine_inv (E\<lparr>channels := C', lotto := L''\<rparr>)"
      using inv by (simp add: engine_inv_def)
    from Cons.IH[OF this] show ?thesis by (simp add: ex Inr ap)
  qed
qed

lemma lotto_init_unclaimed_ok: "unclaimed_ok (lotto_init H rnd now)"
  by (simp add: lotto_init_def startNewDraw_def commit_def unclaimed_ok_def)

lemma engine_init_inv: "engine_inv (engine_init H rnd now)"
  by (simp add: engine_init_def engine_inv_def chans_ok_def pc_ok_def lotto_init_unclaimed_ok)

lemma openChannel_inv:
  "engine_inv E \<Longrightarrow> 0 \<le> x \<Longrightarrow> 0 \<le> y \<Longrightarrow> engine_inv (snd (openChannel now E a x y))"
  by (auto simp: openChannel_def engine_inv_def chans_ok_def nonneg_def)

lemma closeChannel_inv:
  "engine_inv E \<Longrightarrow> engine_inv (snd (closeChannel sg E a))"
  by (auto simp: closeChannel_def engine_inv_def chans_ok_def split: option.splits)

lemma chans_ok_upd: "chans_ok C \<Longrightarrow> nonneg ch \<Longrightarrow> chans_ok (C(a \<mapsto> ch))"
  by (simp add: chans_ok_def)

lemma handleGameAction_inv:
  assumes "engine_inv E"
  shows "engine_inv (snd (handleGameAction H ev E a act))"
proof (cases "channels E a")
  case None
  then show ?thesis using assms by (simp add: handleGameAction_def)
next
  case (Some ch)
  from assms have inv: "chans_ok (channels E)" "pc_ok (pendingCommits E)"
    "unclaimed_ok (lotto E)" by (simp_all add: engine_inv_def)
  from inv(1) Some have n: "nonneg ch" by (simp add: chans_ok_def)
  show ?thesis
  proof (cases act)
    case (SlotsCommit bet)
    then show ?thesis
      using inv slots_commit_pc_ok[OF inv(2), of H "e_rnd ev 0" "e_now ev" ch bet]
      by (simp add: handleGameAction_def Some engine_inv_def case_prod_beta)
  next
    case (SlotsReveal s)
    then show ?thesis
      using inv slots_reveal_pc_ok[OF inv(2), of H "e_sign ev" "e_now ev" ch s]
        chans_ok_upd[OF inv(1) slots_reveal_nonneg[OF n inv(2), of H "e_sign ev" "e_now ev" s], of a]
      by (simp add: handleGameAction_def Some engine_inv_def case_prod_beta)
  next
    case (CoinflipCommit c bet)
    then show ?thesis
      using inv coinflip_commit_pc_ok[OF inv(2), of H "e_rnd ev 0" "e_now ev" ch c bet]
      by (simp add: handleGameAction_def Some engine_inv_def case_prod_beta)
  next
    case (CoinflipReveal s)
    then show ?thesis
      using inv coinflip_reveal_pc_ok[OF inv(2), of H "e_sign ev" "e_now ev" ch s]
        chans_ok_upd[OF inv(1) coinflip_reveal_nonneg[OF n inv(2), of H "e_sign ev" "e_now ev" s], of a]
      by (simp add: handleGameAction_def Some engine_inv_def case_prod_beta)
  next
    case (LottoBuy pick cnt)
    then show ?thesis
      using inv lotto_buy_unclaimed[of "e_sign ev" "e_now ev" ch pick cnt "lotto E"]
        chans_ok_upd[OF inv(1) lotto_buy_nonneg[OF n, of "e_sign ev" "e_now ev" pick cnt "lotto E"], of a]
      by (simp add: handleGameAction_def Some engine_inv_def case_prod_beta unclaimed_ok_def)
  next
    case LottoClaim
    then show ?thesis
      using inv lotto_claim_unclaimed_ok[OF inv(3), of "e_sign ev" ch]
        chans_ok_upd[OF inv(1) lotto_claim_nonneg[OF n inv(3), of "e_sign ev"], of a]
      by (simp add: handleGameAction_def Some engine_inv_def case_prod_beta)
  qed
qed

lemma step_inv:
  "engine_inv E \<Longrightarrow> legal (snd eo) \<Longrightarrow> engine_inv (step H eo E)"
proof -
  assume inv: "engine_inv E" and l: "legal (snd eo)"
  obtain ev op where eo: "eo = (ev, op)" by (cases eo)
  show ?thesis
  proof (cases op)
    case (OpenChannel a x y)
    with l eo show ?thesis using openChannel_inv[OF inv] by simp
  next
    case (CloseChannel a)
    then show ?thesis using closeChannel_inv[OF inv] eo by simp
  next
    case (GameAction a act)
    then show ?thesis using handleGameAction_inv[OF inv] eo by simp
  next
    case RunScheduledTasks
    then show ?thesis using runDraws_inv[OF inv] eo by (simp add: runScheduledTasks_def)
  qed
qed

lemma run_inv:
  "engine_inv E \<Longrightarrow> list_all (\<lambda>eo. legal (snd eo)) evs \<Longrightarrow> engine_inv (run H E evs)"
  by (induction evs arbitrary: E) (simp_all add: step_inv)

lemma legal_sequence_run_inv:
  "legal_sequence evs \<Longrightarrow> engine_inv (run H (engine_init H rnd t0) evs)"
  unfolding legal_sequence_def by (rule run_inv[OF engine_init_inv])

lemma slots_reveal_uncovered:
  "pc (commitKey (agent ch) Slots) = Some p \<Longrightarrow> now - timestamp p \<le> COMMIT_TIMEOUT \<Longrightarrow>
   agentBalance ch < betWei p \<Longrightarrow>
   slots_reveal H sg now ch agentSeed pc =
     (Inl InsufficientBalanceAtReveal, ch, pc(commitKey (agent ch) Slots := None))"
  by (simp add: slots_reveal_def)

lemma coinflip_reveal_uncovered:
  "pc (commitKey (agent ch) Coinflip) = Some p \<Longrightarrow> now - timestamp p \<le> COMMIT_TIMEOUT \<Longrightarrow>
   agentBalance ch < betWei p \<Longrightarrow>
   coinflip_reveal H sg now ch agentSeed pc =
     (Inl InsufficientBalanceAtReveal, ch, pc(commitKey (agent ch) Coinflip := None))"
  by (simp add: coinflip_reveal_def)

lemma lotto_claim_at_most_house:
  "0 \<le> casinoBalance ch \<Longrightarrow>
   agentBalance (fst (snd (lotto_claim sg ch L))) - agentBalance ch \<le> casinoBalance ch
   \<and> 0 \<le> casinoBalance (fst (snd (lotto_claim sg ch L)))"
  by (auto simp: lotto_claim_def Let_def split: option.splits)

text \<open>
  C2. After every sequence of engine operations (open, close, game actions, scheduled
  tasks) in which channels are opened with non-negative deposits, started from a freshly
  constructed engine, whatever the clock, the seeds and the signer do, no channel has a
  negative agent or house balance. In particular: a reveal whose bet the agent's balance
  no longer covers is rejected, the commit is dropped and the channel is unchanged; a
  winning coinflip payout is at most \<open>houseBalance + bet\<close>; and a lotto claim moves at
  most the house balance and leaves it non-negative.
\<close>

theorem balances_never_negative:
  "(legal_sequence evs \<longrightarrow> engine_nonneg (run H (engine_init H rnd t0) evs))
   \<and> (pc (commitKey (agent ch) Slots) = Some p \<and> now - timestamp p \<le> COMMIT_TIMEOUT
        \<and> agentBalance ch < betWei p
      \<longrightarrow> slots_reveal H sg now ch agentSeed pc =
            (Inl InsufficientBalanceAtReveal, ch, pc(commitKey (agent ch) Slots := None)))
   \<and> (pc (commitKey (agent ch) Coinflip) = Some p \<and> now - timestamp p \<le> COMMIT_TIMEOUT
        \<and> agentBalance ch < betWei p
      \<longrightarrow> coinflip_reveal H sg now ch agentSeed pc =
            (Inl InsufficientBalanceAtReveal, ch, pc(commitKey (agent ch) Coinflip := None)))
   \<and> coinflip_payout True bet (casinoBalance ch) \<le> casinoBalance ch + bet
   \<and> (0 \<le> casinoBalance ch
      \<longrightarrow> agentBalance (fst (snd (lotto_claim sg ch L))) - agentBalance ch \<le> casinoBalance ch
          \<and> 0 \<le> casinoBalance (fst (snd (lotto_claim sg ch L))))"
proof (intro conjI impI)
  assume "legal_sequence evs"
  then have "engine_inv (run H (engine_init H rnd t0) evs)"
    by (rule legal_sequence_run_inv)
  then show "engine_nonneg (run H (engine_init H rnd t0) evs)"
    by (simp add: engine_inv_def chans_ok_def engine_nonneg_def)
next
  assume "pc (commitKey (agent ch) Slots) = Some p \<and> now - timestamp p \<le> COMMIT_TIMEOUT
        \<and> agentBalance ch < betWei p"
  then show "slots_reveal H sg now ch agentSeed pc =
            (Inl InsufficientBalanceAtReveal, ch, pc(commitKey (agent ch) Slots := None))"
    by (simp add: slots_reveal_uncovered)
next
  assume "pc (commitKey (agent ch) Coinflip) = Some p \<and> now - timestamp p \<le> COMMIT_TIMEOUT
        \<and> agentBalance ch < betWei p"
  then show "coinflip_reveal H sg now ch agentSeed pc =
            (Inl InsufficientBalanceAtReveal, ch, pc(commitKey (agent ch) Coinflip := None))"
    by (simp add: coinflip_reveal_uncovered)
next
  show "coinflip_payout True bet (casinoBalance ch) \<le> casinoBalance ch + bet"
    by (simp add: coinflip_payout_def cap_le)
next
  assume h: "0 \<le> casinoBalance ch"
  from lotto_claim_at_most_house[OF h, of sg L]
  show "agentBalance (fst (snd (lotto_claim sg ch L))) - agentBalance ch \<le> casinoBalance ch"
    and "0 \<le> casinoBalance (fst (snd (lotto_claim sg ch L)))"
    by simp_all
qed

lemma ex_ops_run:
  "channels (run zero_hash (engine_init zero_hash ''5eed'' 0) ex_ops) ''0x1111'' =
     Some (fst (snd (slots_reveal zero_hash ok_signer 0 ex_rich_house ''feed'' ex_slots_pending)))"
proof -
  define E0 where "E0 = engine_init zero_hash ''5eed'' 0"
  define E1 where "E1 = E0\<lparr>channels := [''0x1111'' \<mapsto> ex_rich_house]\<rparr>"
  define E2 where "E2 = E1\<lparr>pendingCommits := ex_slots_pending\<rparr>"
  have v: "validateBet Slots ex_rich_house 1000 2 = None"
    by (simp add: validateBet_def ex_rich_house_def mk_channel_def)
  have ag: "agent ex_rich_house = ''0x1111''" by (simp add: ex_rich_house_def mk_channel_def)
  have E0: "channels E0 = Map.empty" "pendingCommits E0 = Map.empty"
    by (simp_all add: E0_def engine_init_def)
  have s1: "step zero_hash (ex_env, OpenChannel ''0x1111'' 100000000000000000
              10000000000000000000) E0 = E1"
    by (simp add: openChannel_def E0 E1_def ex_env_def ex_rich_house_def mk_channel_def)
  have c: "slots_commit zero_hash ''c0ffee'' 0 ex_rich_house 1000 Map.empty =
      (Inr (zero_hash ''c0ffee'', 1000), ex_slots_pending)"
    using slots_commit_free[of Map.empty ex_rich_house 1000 zero_hash "''c0ffee''" 0] v
    by (simp add: ex_slots_pending_def ag)
  have E1: "channels E1 ''0x1111'' = Some ex_rich_house" "pendingCommits E1 = Map.empty"
    by (simp_all add: E1_def E0)
  have s2: "step zero_hash (ex_env, GameAction ''0x1111'' (SlotsCommit 1000)) E1 = E2"
    by (simp add: handleGameAction_def E1 E2_def ex_env_def c)
  have E2: "channels E2 ''0x1111'' = Some ex_rich_house" "pendingCommits E2 = ex_slots_pending"
    by (simp_all add: E2_def E1)
  have s3: "channels (step zero_hash (ex_env, GameAction ''0x1111'' (SlotsReveal ''feed'')) E2)
              ''0x1111'' =
            Some (fst (snd (slots_reveal zero_hash ok_signer 0 ex_rich_house ''feed''
              ex_slots_pending)))"
    by (simp add: handleGameAction_def E2 ex_env_def case_prod_beta)
  show ?thesis
    unfolding ex_ops_def E0_def[symmetric] by (simp add: s1 s2 s3 del: step.simps)
qed

text \<open>
  The statement at the example run: after opening, committing 1000 wei to slots and
  revealing three cherries, the agent holds 0.1 ether plus 4000 wei and the house 10 ether
  minus 4000 wei.
\<close>

theorem balances_never_negative_witness:
  "legal_sequence ex_ops
   \<and> engine_nonneg (run zero_hash (engine_init zero_hash ''5eed'' 0) ex_ops)
   \<and> map_option agentBalance
        (channels (run zero_hash (engine_init zero_hash ''5eed'' 0) ex_ops) ''0x1111'')
       = Some 100000000000004000
   \<and> map_option casinoBalance
        (channels (run zero_hash (engine_init zero_hash ''5eed'' 0) ex_ops) ''0x1111'')
       = Some 9999999999999996000"
proof -
  have l: "legal_sequence ex_ops"
    by (simp add: legal_sequence_def ex_ops_def)
  have a: "ex_slots_pending (commitKey (agent ex_rich_house) Slots) =
      Some \<lparr>seed = ''c0ffee'', betWei = 1000, choice = None, game = ''slots'', timestamp = 0\<rparr>"
    by (simp add: ex_slots_pending_def ex_rich_house_def mk_channel_def)
  have z: "\<And>s k. k < 29 \<Longrightarrow> uint32_be (zero_hash s) k = 0"
    by (simp add: uint32_be_def zero_hash_def)
  have r: "fst (snd (slots_reveal zero_hash ok_signer 0 ex_rich_house ''feed''
        ex_slots_pending)) =
      ex_rich_house\<lparr>agentBalance := agentBalance ex_rich_house - 1000 + 5000,
         casinoBalance := casinoBalance ex_rich_house + 1000 - 5000,
         nonce := nonce ex_rich_house + 1,
         games := games ex_rich_house @
           [SlotsRound (nonce ex_rich_house + 1) 1000 [0, 0, 0] 5 5000 0]\<rparr>"
    by (subst slots_reveal_resolved[where pc=ex_slots_pending and ch=ex_rich_house
          and p="\<lparr>seed = ''c0ffee'', betWei = 1000, choice = None,
          game = ''slots'', timestamp = 0\<rparr>", OF a])
      (simp_all add: COMMIT_TIMEOUT_def computeResult_def z weight_bucket_def Let_def
        slots_multiplier_def PAYOUTS_def, simp_all add: ex_rich_house_def mk_channel_def zero_hash_def)
  from balances_never_negative[where evs=ex_ops and H=zero_hash and rnd="''5eed''" and ?t0.0=0]
  show ?thesis
    using l by (simp add: ex_ops_run r) (simp add: ex_rich_house_def mk_channel_def)
qed

end
